theory Spec2Isabelle
  imports Main
begin

section \<open>Path language: \<open>ComposedNode.split_path\<close> and \<open>ComposedNode.join_path\<close>\<close>

text \<open>
  A path component is a Python \<open>str\<close> (a child name) or a Python \<open>int\<close> (an index);
  \<open>split_path\<close> yields nothing else, and \<open>get_list_path\<close> refuses anything else.
\<close>

datatype component = Name string | Index int

text \<open>
  The exceptions the modelled code raises. \<open>ValueError\<close> is what the specification calls
  \<open>InvalidPath\<close> when \<open>split_path\<close> raises it, and \<open>AllowNewViolation\<close> when the
  leaf \<open>merge\<close> raises it.
\<close>

datatype error = ValueError | TypeError | AttributeError | AssertionError

subsection \<open>The regular expression \<open>_path_component_regex\<close>\<close>

text \<open>The character classes \<open>[a-zA-Z0-9_]\<close> and \<open>[0-9]\<close>.\<close>

definition is_digit :: "char \<Rightarrow> bool" where
  "is_digit c = (c \<in> set ''0123456789'')"

definition is_ident :: "char \<Rightarrow> bool" where
  "is_ident c = (c \<in> set ''abcdefghijklmnopqrstuvwxyz''
     \<or> c \<in> set ''ABCDEFGHIJKLMNOPQRSTUVWXYZ''
     \<or> is_digit c \<or> c = CHR ''_'')"

text \<open>
  \<open>$\<close> (the \<open>MULTILINE\<close> flag is not set) holds at the end of the string and just before a
  newline that ends the string.
\<close>

definition at_dollar :: "string \<Rightarrow> bool" where
  "at_dollar rest = (rest = [] \<or> rest = [CHR 0x0A])"

text \<open>
  One attempt of the regular expression at one position. \<open>prev\<close> is the character before the
  position (\<open>None\<close> at the start of the string), \<open>rest\<close> the text from the position on.
  The result is the length of the match with its two capture groups.
  \<^item> first alternative: at the start or after a dot, a greedy run of identifier characters
    (group 1);
  \<^item> second alternative: \<open>[\<close>, an optional \<open>-\<close>, a greedy run of digits (group 2 holds sign
    and digits), \<open>]\<close>;
  \<^item> third alternative: a dot that is not the first character, not at \<open>$\<close>, and not followed
    by a dot or by \<open>[\<close>.
  The three alternatives begin with different characters, so their order does not matter, and
  a greedy run cannot be shortened to any effect: what follows the run in each alternative
  (nothing, respectively \<open>]\<close>) does not belong to the run's class.
\<close>

definition match_bracket :: "string \<Rightarrow> (nat \<times> string option \<times> string option) option" where
  "match_bracket r =
     (let sign = (if r \<noteq> [] \<and> hd r = CHR ''-'' then [CHR ''-''] else []);
          r' = drop (length sign) r;
          ds = takeWhile is_digit r';
          r'' = dropWhile is_digit r'
      in if ds \<noteq> [] \<and> r'' \<noteq> [] \<and> hd r'' = CHR '']''
         then Some (length sign + length ds + 2, None, Some (sign @ ds))
         else None)"

definition match_here :: "char option \<Rightarrow> string \<Rightarrow> (nat \<times> string option \<times> string option) option" where
  "match_here prev rest =
     (case rest of
        [] \<Rightarrow> None
      | c # r \<Rightarrow>
          if is_ident c then
            (if prev = None \<or> prev = Some CHR ''.''
             then Some (length (takeWhile is_ident rest), Some (takeWhile is_ident rest), None)
             else None)
          else if c = CHR ''['' then match_bracket r
          else if c = CHR ''.'' then
            (if prev \<noteq> None \<and> \<not> at_dollar r \<and> hd r \<noteq> CHR ''.'' \<and> hd r \<noteq> CHR ''[''
             then Some (1, None, None)
             else None)
          else None)"

text \<open>A match object: \<open>start()\<close>, \<open>end()\<close>, \<open>group(1)\<close>, \<open>group(2)\<close>.\<close>

datatype rmatch = RMatch (m_start: nat) (m_end: nat) (group1: "string option") (group2: "string option")

text \<open>
  \<open>finditer\<close>: scan from left to right; where the expression matches, report the match and go
  on after it; where it does not, go on one character later. No alternative matches the empty
  string, so a match of length \<open>n\<close> at \<open>c # cs\<close> leaves \<open>drop (n - 1) cs\<close>.
\<close>

fun finditer_from :: "char option \<Rightarrow> string \<Rightarrow> nat \<Rightarrow> rmatch list" where
  "finditer_from prev [] pos = []"
| "finditer_from prev (c # cs) pos =
     (case match_here prev (c # cs) of
        None \<Rightarrow> finditer_from (Some c) cs (pos + 1)
      | Some (n, g1, g2) \<Rightarrow>
          RMatch pos (pos + n) g1 g2
            # finditer_from (Some ((c # cs) ! (n - 1))) (drop (n - 1) cs) (pos + n))"

definition finditer :: "string \<Rightarrow> rmatch list" where
  "finditer path_str = finditer_from None path_str 0"

subsection \<open>Python's \<open>int(text)\<close> and \<open>str(number)\<close>\<close>

text \<open>The value of a decimal digit, and the digit of a value below ten.\<close>

definition digit_val :: "char \<Rightarrow> nat" where
  "digit_val c = length (takeWhile (\<lambda>d. d \<noteq> c) ''0123456789'')"

definition digit_char :: "nat \<Rightarrow> char" where
  "digit_char n = ''0123456789'' ! n"

definition nat_of_digits :: "string \<Rightarrow> nat" where
  "nat_of_digits ds = foldl (\<lambda>a c. 10 * a + digit_val c) 0 ds"

text \<open>\<open>int\<close> of a text of the shape \<open>-?[0-9]+\<close> (all that group 2 can hold).\<close>

definition py_int :: "string \<Rightarrow> int" where
  "py_int t = (if t \<noteq> [] \<and> hd t = CHR ''-'' then - int (nat_of_digits (tl t))
               else int (nat_of_digits t))"

fun digits_of_nat :: "nat \<Rightarrow> string" where
  "digits_of_nat n =
     (if n < 10 then [digit_char n] else digits_of_nat (n div 10) @ [digit_char (n mod 10)])"

declare digits_of_nat.simps [simp del]

definition py_str_int :: "int \<Rightarrow> string" where
  "py_str_int i = (if i < 0 then CHR ''-'' # digits_of_nat (nat (- i)) else digits_of_nat (nat i))"

subsection \<open>\<open>split_path\<close>\<close>

text \<open>
  The validation loop of \<open>split_path\<close>: \<open>end\<close> is \<open>None\<close> before the first match. (The
  variable \<open>beg\<close> of the source is written and never read.) The result is the error raised,
  or the final \<open>end\<close>.
\<close>

fun validate_matches :: "rmatch list \<Rightarrow> nat option \<Rightarrow> error + nat option" where
  "validate_matches [] end = Inr end"
| "validate_matches (m # ms) end =
     (if m_start m \<noteq> (case end of Some e \<Rightarrow> e | None \<Rightarrow> 0) then Inl ValueError
      else validate_matches ms (Some (m_end m)))"

text \<open>
  The second loop: what each match yields. A captured group is never the empty string, so
  the truth tests \<open>if match.group(1)\<close> and \<open>elif match.group(2)\<close> ask whether the group took
  part in the match; a match with neither group is a single dot and yields nothing.
\<close>

definition yield_component :: "rmatch \<Rightarrow> component list" where
  "yield_component m =
     (let index_branch =
            (case group2 m of
               Some t \<Rightarrow> (if t \<noteq> [] then [Index (py_int t)] else [])
             | None \<Rightarrow> [])
      in case group1 m of
           Some name \<Rightarrow> (if name \<noteq> [] then [Name name] else index_branch)
         | None \<Rightarrow> index_branch)"

fun yield_components :: "rmatch list \<Rightarrow> component list" where
  "yield_components [] = []"
| "yield_components (m # ms) = yield_component m @ yield_components ms"

text \<open>
  \<open>split_path(path_str, validate)\<close>, the generator run to its end: the error it raises or
  the list of what it yields.
\<close>

definition split_path :: "string \<Rightarrow> bool \<Rightarrow> error + component list" where
  "split_path path_str validate =
     (let matches = finditer path_str in
      if validate then
        (case validate_matches matches None of
           Inl e \<Rightarrow> Inl e
         | Inr end \<Rightarrow>
             if path_str \<noteq> [] \<and> end \<noteq> Some (length path_str) then Inl ValueError
             else Inr (yield_components matches))
      else Inr (yield_components matches))"

subsection \<open>\<open>join_path\<close>\<close>

text \<open>\<open>_get_child_accessor(childname, myname)\<close>.\<close>

definition get_child_accessor :: "component \<Rightarrow> string \<Rightarrow> string" where
  "get_child_accessor childname myname =
     (case childname of
        Index i \<Rightarrow> ''['' @ py_str_int i @ '']''
      | Name s \<Rightarrow> (if myname \<noteq> [] then ''.'' else '''') @ s)"

definition join_path :: "component list \<Rightarrow> string" where
  "join_path path_list = foldl (\<lambda>ret component. ret @ get_child_accessor component ret) '''' path_list"

subsection \<open>Notions used to state the properties of the path language\<close>

text \<open>
  The matches follow one another from position \<open>p\<close> on with nothing between them:
  what the validation loop of \<open>split_path\<close> tests.
\<close>

fun no_gaps :: "nat \<Rightarrow> rmatch list \<Rightarrow> bool" where
  "no_gaps p [] = True"
| "no_gaps p (m # ms) = (m_start m = p \<and> no_gaps (m_end m) ms)"

text \<open>The value of \<open>end\<close> after the validation loop, started with \<open>e\<close>.\<close>

fun final_end :: "nat option \<Rightarrow> rmatch list \<Rightarrow> nat option" where
  "final_end e [] = e"
| "final_end e (m # ms) = final_end (Some (m_end m)) ms"

text \<open>
  The decimal text of an integer as \<open>str\<close> writes it: no leading zero (but \<open>0\<close> itself)
  and no \<open>-0\<close>.
\<close>

definition canonical_int_text :: "string \<Rightarrow> bool" where
  "canonical_int_text t =
     (t = ''0'' \<or> (t \<noteq> [] \<and> hd (if hd t = CHR ''-'' then tl t else t) \<noteq> CHR ''0''))"

text \<open>A match whose bracketed integer, if it has one, is written as \<open>str\<close> writes it.\<close>

definition canonical_index :: "rmatch \<Rightarrow> bool" where
  "canonical_index m = (case group2 m of None \<Rightarrow> True | Some t \<Rightarrow> canonical_int_text t)"

text \<open>One round of the loop of \<open>join_path\<close>.\<close>

definition accessor_step :: "string \<Rightarrow> component \<Rightarrow> string" where
  "accessor_step ret component = ret @ get_child_accessor component ret"

section \<open>Nodes as values: \<open>ConfigNode\<close>, \<open>ComposedNode\<close>, \<open>ConfigDict\<close>\<close>

text \<open>
  The native values a scalar node wraps, as far as the merge looks at them: it only asks
  whether a node is true or false in Python's sense.
\<close>

datatype native = NNone | NBool bool | NInt int | NStr string

text \<open>
  The attributes \<open>ConfigNode.__init__\<close> stores: \<open>_idx\<close>, \<open>_priority\<close>, \<open>_delete\<close>,
  \<open>_allow_new\<close>, \<open>_implicit_delete\<close>, \<open>_implicit_allow_new\<close>, \<open>_source_file\<close>, \<open>_metadata\<close>.
  \<open>None\<close> is an attribute left unset.
\<close>

record flags =
  n_idx :: "int option"
  n_priority :: "int option"
  n_delete :: "bool option"
  n_allow_new :: "bool option"
  n_implicit_delete :: "bool option"
  n_implicit_allow_new :: "bool option"
  n_source_file :: "string option"
  n_metadata :: "(string \<times> native) list"

text \<open>A node built with no keyword argument.\<close>

definition unset :: flags where
  "unset = \<lparr>n_idx = None, n_priority = None, n_delete = None, n_allow_new = None,
     n_implicit_delete = None, n_implicit_allow_new = None, n_source_file = None,
     n_metadata = []\<rparr>"

text \<open>
  A node is a leaf holding a native value, or a \<open>ConfigDict\<close> with its \<open>_children\<close>: a Python
  dictionary, which keeps its keys in the order of their first insertion, hence a list of
  pairs (with no key twice, see \<open>distinct_keys\<close>). A \<open>ConfigDict\<close> is also the \<open>dict\<close> of
  the same pairs; \<open>_set\<close> and \<open>_del\<close> write both, so one list stands for both.

  This part models nodes by their content. It is the model of the merge and of
  \<open>filter_nodes\<close>, for trees in which no node object is reached twice; the identity of node
  objects is the subject of the model of nodes in a store, further down.

  Modelled from the spec: the class of scalar leaves (\<open>ConfigScalar\<close>, \<open>nodes/scalar.py\<close>) is
  not among the sources. A scalar leaf is taken to be a \<open>ConfigNode\<close> that is a leaf and
  that is true or false as the native value it wraps.
\<close>

datatype node = Scalar flags native | Dict flags "(component \<times> node) list"

fun flags_of :: "node \<Rightarrow> flags" where
  "flags_of (Scalar f v) = f"
| "flags_of (Dict f cs) = f"

fun children_of :: "node \<Rightarrow> (component \<times> node) list" where
  "children_of (Scalar f v) = []"
| "children_of (Dict f cs) = cs"


subsection \<open>The properties of the namespace of \<open>ConfigNode\<close>\<close>

definition WEAK :: int where "WEAK = - 1"
definition STANDARD :: int where "STANDARD = 0"
definition FORCE :: int where "FORCE = 1"

definition default_priority :: int where "default_priority = STANDARD"
definition default_delete :: bool where "default_delete = False"
definition default_allow_new :: bool where "default_allow_new = True"

definition priority :: "node \<Rightarrow> int" where
  "priority self = (case n_priority (flags_of self) of None \<Rightarrow> default_priority | Some p \<Rightarrow> p)"

definition delete :: "node \<Rightarrow> bool" where
  "delete self =
     (case n_delete (flags_of self) of
        None \<Rightarrow> (case n_implicit_delete (flags_of self) of Some d \<Rightarrow> d | None \<Rightarrow> default_delete)
      | Some d \<Rightarrow> d)"

text \<open>
  The property \<open>allow_new\<close> as the source has it: the two lines that would read the node's own
  \<open>_allow_new\<close> are commented out, so only the inherited flag and the default count.
\<close>

definition allow_new :: "node \<Rightarrow> bool" where
  "allow_new self =
     (case n_implicit_allow_new (flags_of self) of Some a \<Rightarrow> a | None \<Rightarrow> default_allow_new)"

fun is_leaf :: "node \<Rightarrow> bool" where
  "is_leaf (Scalar f v) = True"
| "is_leaf (Dict f cs) = False"

definition has_priority_over :: "node \<Rightarrow> node \<Rightarrow> bool \<Rightarrow> bool" where
  "has_priority_over self other if_equal =
     (if priority self = priority other then if_equal else priority self > priority other)"

text \<open>Python's truth value of a node: of a \<open>dict\<close>, that it is not empty.\<close>

fun native_truth :: "native \<Rightarrow> bool" where
  "native_truth NNone = False"
| "native_truth (NBool b) = b"
| "native_truth (NInt i) = (i \<noteq> 0)"
| "native_truth (NStr s) = (s \<noteq> [])"

fun truth :: "node \<Rightarrow> bool" where
  "truth (Scalar f v) = native_truth v"
| "truth (Dict f cs) = (cs \<noteq> [])"

subsection \<open>Children\<close>

text \<open>
  \<open>dir(type(self))\<close> for a \<open>ConfigDict\<close>: the names defined in the bodies of \<open>ConfigDict\<close>,
  \<open>ComposedNode\<close> and \<open>ConfigNode\<close> (the namespaces \<open>node_info\<close>, \<open>yamlfigns\<close> and \<open>ayns\<close> among
  them, not the names defined inside a namespace), the methods of \<open>dict\<close>, and the names
  with two underscores that every class and \<open>dict\<close> have. The list of the last kind is that
  of Python 3.8; a later version adds names of that kind, and what the metaclass of the
  namespaces adds is not among the sources.
\<close>

definition ConfigDict_dir :: "string list" where
  "ConfigDict_dir =
     [''_set'', ''_del'', ''clear'', ''setdefault'', ''pop'', ''popitem'', ''update'', ''merge'',
      ''_get_value'', ''_set_value'', ''node_info'',
      ''_path_component_regex'', ''split_path'', ''join_path'', ''_get_child_accessor'',
      ''get_list_path'', ''get_str_path'', ''maybe_inherit_flags'', ''yamlfigns'',
      ''WEAK'', ''STANDARD'', ''FORCE'', ''special_metadata_names'', ''_default_filename'',
      ''_default_priority'', ''_default_delete'', ''_default_allow_new'', ''default_filename'',
      ''ayns'',
      ''copy'', ''fromkeys'', ''get'', ''items'', ''keys'', ''values'',
      ''__init__'', ''__setattr__'', ''__getattr__'', ''__delattr__'', ''__setitem__'',
      ''__delitem__'', ''__contains__'', ''__repr__'',
      ''__class__'', ''__dict__'', ''__dir__'', ''__doc__'', ''__eq__'', ''__format__'',
      ''__ge__'', ''__getattribute__'', ''__getitem__'', ''__gt__'', ''__hash__'',
      ''__init_subclass__'', ''__iter__'', ''__le__'', ''__len__'', ''__lt__'', ''__module__'',
      ''__ne__'', ''__new__'', ''__reduce__'', ''__reduce_ex__'', ''__reversed__'',
      ''__sizeof__'', ''__str__'', ''__subclasshook__'', ''__weakref__'']"

definition get_child :: "node \<Rightarrow> component \<Rightarrow> node option" where
  "get_child self name = map_of (children_of self) name"

definition has_child :: "node \<Rightarrow> component \<Rightarrow> bool" where
  "has_child self name = (name \<in> fst ` set (children_of self))"

text \<open>
  \<open>self.premerge(other)\<close>, the first statement of \<open>ConfigNode.merge\<close>. The name
  \<open>premerge\<close> is defined in the class \<open>ayns\<close> only, so a node has no attribute of that name
  and the lookup raises \<open>AttributeError\<close>. A \<open>ConfigDict\<close> answers the lookup through
  \<open>__getattr__\<close> with its child of that name when it has one; the child is a node, and to
  call a node is a \<open>TypeError\<close>.
\<close>

definition self_premerge :: "node \<Rightarrow> node option \<Rightarrow> error + node" where
  "self_premerge self other =
     (case get_child self (Name ''premerge'') of
        None \<Rightarrow> Inl AttributeError
      | Some child \<Rightarrow> Inl TypeError)"

text \<open>
  \<open>ConfigNode.merge(self, other)\<close>, the merge of the namespace \<open>ayns\<close>, against the node
  \<open>other\<close> found in the destination (\<open>None\<close> when there is none): the call
  \<open>self.premerge(other)\<close>, then the test of \<open>allow_new\<close> and the comparison of the
  priorities.
\<close>

definition ConfigNode_merge :: "node \<Rightarrow> node option \<Rightarrow> error + node" where
  "ConfigNode_merge self other =
     (case self_premerge self other of
        Inl e \<Rightarrow> Inl e
      | Inr r \<Rightarrow>
          (case other of
             None \<Rightarrow> (if \<not> allow_new self then Inl ValueError else Inr self)
           | Some other' \<Rightarrow> (if has_priority_over self other' False then Inr self else Inr other')))"

text \<open>
  Writing an entry of \<open>_children\<close>: a key already there keeps its place, a new key goes to the
  end.
\<close>

fun assign :: "'k \<Rightarrow> 'v \<Rightarrow> ('k \<times> 'v) list \<Rightarrow> ('k \<times> 'v) list" where
  "assign k v [] = [(k, v)]"
| "assign k v (p # ps) = (if fst p = k then (k, v) # ps else p # assign k v ps)"

text \<open>
  \<open>set_child\<close> of a \<open>ConfigDict\<close>: \<open>_set\<close> refuses a name that an attribute of the class has,
  then \<open>ComposedNode.set_child\<close> stores the value (a node passes through \<open>ConfigNode(value)\<close>
  as it is, see \<open>ConfigNodeMeta_call\<close>). A leaf has no \<open>set_child\<close>.
\<close>

definition set_child :: "node \<Rightarrow> component \<Rightarrow> node \<Rightarrow> error + node" where
  "set_child self name value =
     (case self of
        Scalar f v \<Rightarrow> Inl AttributeError
      | Dict f cs \<Rightarrow>
          (case name of
             Name s \<Rightarrow> if s \<in> set ConfigDict_dir then Inl ValueError
                       else Inr (Dict f (assign name value cs))
           | Index i \<Rightarrow> Inr (Dict f (assign name value cs))))"

text \<open>
  \<open>remove_child\<close>: \<open>_children.pop(name, None)\<close>, then \<open>dict.__delitem__\<close>, which would raise
  \<open>KeyError\<close> for a name that is not there; \<open>merge\<close> and \<open>filter_nodes\<close> remove only names they
  have just read from \<open>_children\<close>.
\<close>

definition remove_child :: "node \<Rightarrow> component \<Rightarrow> node" where
  "remove_child self name =
     (case self of
        Scalar f v \<Rightarrow> Scalar f v
      | Dict f cs \<Rightarrow> Dict f (filter (\<lambda>kv. fst kv \<noteq> name) cs))"

text \<open>
  A child that is changed in place is the same object afterwards; in a model of nodes by
  content the parent's entry gets the changed child. This is no method of the source.
\<close>

definition changed_in_place :: "node \<Rightarrow> component \<Rightarrow> node \<Rightarrow> node" where
  "changed_in_place self name child =
     (case self of
        Scalar f v \<Rightarrow> Scalar f v
      | Dict f cs \<Rightarrow> Dict f (map (\<lambda>kv. if fst kv = name then (name, child) else kv) cs))"

subsection \<open>\<open>get_node\<close> and \<open>get_first_not_missing_node\<close>\<close>

text \<open>
  The loop of \<open>get_node\<close>: the list \<open>ret\<close> of the nodes visited, \<open>self\<close> first, with \<open>None\<close>
  last when a component is missing (the node reached is a leaf or has no such child).
\<close>

fun get_node_ret :: "node \<Rightarrow> component list \<Rightarrow> node option list" where
  "get_node_ret self [] = [Some self]"
| "get_node_ret self (c # path) =
     Some self # (case get_child self c of
                    None \<Rightarrow> [None]
                  | Some child \<Rightarrow> get_node_ret child path)"

text \<open>
  \<open>get_node(path)\<close> with the defaults \<open>intermediate=False\<close>, \<open>incomplete=None\<close>: the node at
  the path, or \<open>None\<close> when it does not exist.
\<close>

definition get_node :: "node \<Rightarrow> component list \<Rightarrow> node option" where
  "get_node self path = last (get_node_ret self path)"

text \<open>
  \<open>get_first_not_missing_node(path)\<close>: \<open>get_node(path, intermediate=True, incomplete=True)\<close>,
  then the last node of the list that is not \<open>None\<close>. The result is total here, \<open>self\<close>
  standing for the value of the two assertions' failure, which cannot happen: the list
  starts with \<open>self\<close> and holds \<open>None\<close> at most once, at its end.
\<close>

definition get_first_not_missing_node :: "node \<Rightarrow> component list \<Rightarrow> node" where
  "get_first_not_missing_node self path =
     (let nodes = get_node_ret self path in
      case last nodes of
        Some n \<Rightarrow> n
      | None \<Rightarrow> (case last (butlast nodes) of Some n \<Rightarrow> n | None \<Rightarrow> self))"

subsection \<open>\<open>filter_nodes\<close>\<close>

text \<open>
  \<open>filter_nodes(condition, prefix)\<close>. The loop over the children returns the children as the
  recursive calls have left them (a composed child is filtered in place, whether it is kept
  or not) and the list \<open>to_del\<close>; the names of \<open>to_del\<close> are removed afterwards, last first.
  The condition is a function with no effect and no exception.
  \<open>filter_nodes\<close> returns \<open>self\<close>, so \<open>possibly_new_child is not child\<close> is false and
  \<open>to_re_set\<close> stays empty.
\<close>

fun filter_nodes :: "(component list \<Rightarrow> node \<Rightarrow> bool) \<Rightarrow> component list \<Rightarrow> node \<Rightarrow> node"
  and filter_loop :: "(component list \<Rightarrow> node \<Rightarrow> bool) \<Rightarrow> component list
      \<Rightarrow> (component \<times> node) list \<Rightarrow> (component \<times> node) list \<times> component list" where
  "filter_nodes condition prefix (Scalar f v) = Scalar f v"
| "filter_nodes condition prefix (Dict f cs) =
     (case filter_loop condition prefix cs of
        (cs', to_del) \<Rightarrow> fold (\<lambda>name self. remove_child self name) (rev to_del) (Dict f cs'))"
| "filter_loop condition prefix [] = ([], [])"
| "filter_loop condition prefix ((name, child) # rest) =
     (let child_path = prefix @ [name];
          keep = condition child_path child;
          possibly_new_child = (if \<not> is_leaf child then filter_nodes condition child_path child else child);
          keep = (if \<not> is_leaf child then keep \<and> truth possibly_new_child else keep)
      in case filter_loop condition prefix rest of
           (cs', to_del) \<Rightarrow>
             ((name, possibly_new_child) # cs', (if \<not> keep then [name] else []) @ to_del))"

subsection \<open>\<open>ComposedNode.merge\<close>\<close>

text \<open>
  The outcome of a call that changes \<open>self\<close> in place: it returns, or it raises; either way
  \<open>self\<close> is left with some content.
\<close>

datatype outcome = Returned node | Raised error node

text \<open>The condition \<open>maybe_keep\<close> that \<open>merge\<close> hands to \<open>filter_nodes\<close>.\<close>

definition maybe_keep :: "node \<Rightarrow> component list \<Rightarrow> node \<Rightarrow> bool" where
  "maybe_keep other path node =
     (if (case get_node other path of Some n \<Rightarrow> truth n | None \<Rightarrow> False) then True
      else has_priority_over node (get_first_not_missing_node other path) False)"

text \<open>
  The step of the loop of \<open>merge\<close> when the child is a leaf, or when the recursive merge
  has raised \<open>TypeError\<close> or \<open>AttributeError\<close>: the priorities decide.
\<close>

definition merge_by_priority :: "node \<Rightarrow> component \<Rightarrow> node \<Rightarrow> node \<Rightarrow> error + node" where
  "merge_by_priority self key child value =
     (if has_priority_over value child True then
        (if \<not> truth value \<and> delete value then Inr (remove_child self key)
         else set_child self key value)
      else Inr self)"

text \<open>
  \<open>merge(self, other)\<close> of the namespace of \<open>ComposedNode\<close>, for a \<open>ConfigDict\<close> \<open>self\<close>.
  \<^item> \<open>other.premerge(self)\<close> maps \<open>on_premerge\<close> over \<open>other\<close>, which returns each node as it
    is for the classes in the sources: nothing changes.
  \<^item> A leaf \<open>other\<close> has neither \<open>get_node\<close> nor \<open>_children\<close>: \<open>AttributeError\<close> is raised
    by the first call of \<open>maybe_keep\<close> or by \<open>other._children\<close>, before \<open>self\<close> is changed.
  \<^item> The recursive call changes the child in place and returns it, so
    \<open>possibly_new_child is not child\<close> is false.
  \<^item> An exception other than \<open>TypeError\<close> and \<open>AttributeError\<close> leaves the loop with
    \<open>self\<close> as it is by then.
\<close>

fun merge :: "node \<Rightarrow> node \<Rightarrow> outcome"
  and merge_items :: "node \<Rightarrow> (component \<times> node) list \<Rightarrow> outcome" where
  "merge self (Scalar f v) = Raised AttributeError self"
| "merge self (Dict f items) =
     merge_items
       (if delete (Dict f items) then filter_nodes (maybe_keep (Dict f items)) [] self else self)
       items"
| "merge_items self [] = Returned self"
| "merge_items self ((key, value) # rest) =
     (case get_child self key of
        None \<Rightarrow>
          (case set_child self key value of
             Inl e \<Rightarrow> Raised e self
           | Inr self' \<Rightarrow> merge_items self' rest)
      | Some child \<Rightarrow>
          if \<not> is_leaf child then
            (case merge child value of
               Returned possibly_new_child \<Rightarrow>
                 if \<not> truth possibly_new_child \<and> \<not> has_priority_over possibly_new_child value False
                 then merge_items (remove_child self key) rest
                 else merge_items (changed_in_place self key possibly_new_child) rest
             | Raised e child' \<Rightarrow>
                 if e = TypeError \<or> e = AttributeError then
                   (case merge_by_priority (changed_in_place self key child') key child' value of
                      Inl e' \<Rightarrow> Raised e' (changed_in_place self key child')
                    | Inr self' \<Rightarrow> merge_items self' rest)
                 else Raised e (changed_in_place self key child'))
          else
            (case merge_by_priority self key child value of
               Inl e \<Rightarrow> Raised e self
             | Inr self' \<Rightarrow> merge_items self' rest))"

subsection \<open>\<open>ConfigDict.merge\<close>\<close>

text \<open>
  The method \<open>merge\<close> of \<open>ConfigDict\<close> itself. \<open>other.items()\<close> needs a dictionary. The method
  has no \<open>return\<close>; \<open>Returned\<close> holds \<open>self\<close> as the call leaves it.
  For a name that \<open>self\<close> has, the test reads \<open>self[name].is_leaf\<close>, an attribute of the
  child and not the property of its namespace: a node has no such attribute, so the read
  raises \<open>AttributeError\<close>, unless the child is a \<open>ConfigDict\<close> with a child of its own named
  \<open>is_leaf\<close>, which \<open>__getattr__\<close> returns and \<open>not\<close> takes by its truth value.
\<close>

fun ConfigDict_merge :: "node \<Rightarrow> node \<Rightarrow> outcome"
  and ConfigDict_merge_items :: "node \<Rightarrow> (component \<times> node) list \<Rightarrow> outcome" where
  "ConfigDict_merge self (Scalar f v) = Raised AttributeError self"
| "ConfigDict_merge self (Dict f items) = ConfigDict_merge_items self items"
| "ConfigDict_merge_items self [] = Returned self"
| "ConfigDict_merge_items self ((name, value) # rest) =
     (case get_child self name of
        None \<Rightarrow>
          (case set_child self name value of
             Inl e \<Rightarrow> Raised e self
           | Inr self' \<Rightarrow> ConfigDict_merge_items self' rest)
      | Some child \<Rightarrow>
          (case get_child child (Name ''is_leaf'') of
             None \<Rightarrow> Raised AttributeError self
           | Some is_leaf_child \<Rightarrow>
               if \<not> truth is_leaf_child then
                 (case ConfigDict_merge child value of
                    Returned child' \<Rightarrow> ConfigDict_merge_items (changed_in_place self name child') rest
                  | Raised e child' \<Rightarrow> Raised e (changed_in_place self name child'))
               else
                 (case set_child self name value of
                    Inl e \<Rightarrow> Raised e self
                  | Inr self' \<Rightarrow> ConfigDict_merge_items self' rest)))"

subsection \<open>Notions used to state the properties of the merge\<close>

text \<open>What the loop of \<open>filter_nodes\<close> leaves of one child, and whether it keeps the child.\<close>

definition filtered_child :: "(component list \<Rightarrow> node \<Rightarrow> bool) \<Rightarrow> component list \<Rightarrow> component \<Rightarrow> node \<Rightarrow> node" where
  "filtered_child condition prefix name child =
     (if is_leaf child then child else filter_nodes condition (prefix @ [name]) child)"

definition keeps_child :: "(component list \<Rightarrow> node \<Rightarrow> bool) \<Rightarrow> component list \<Rightarrow> component \<Rightarrow> node \<Rightarrow> bool" where
  "keeps_child condition prefix name child =
     (condition (prefix @ [name]) child
      \<and> (is_leaf child \<or> truth (filter_nodes condition (prefix @ [name]) child)))"











text \<open>What the loop makes of a key whose child in the destination is absent or a leaf.\<close>

definition slot_after :: "node option \<Rightarrow> node \<Rightarrow> node option" where
  "slot_after child val =
     (case child of
        None \<Rightarrow> Some val
      | Some c \<Rightarrow>
          if has_priority_over val c True
          then (if \<not> truth val \<and> delete val then None else Some val)
          else Some c)"

definition standard_1 :: node where "standard_1 = Scalar unset (NInt 1)"

definition weak_2 :: node where "weak_2 = Scalar (unset\<lparr>n_priority := Some WEAK\<rparr>) (NInt 2)"

definition force_2 :: node where "force_2 = Scalar (unset\<lparr>n_priority := Some FORCE\<rparr>) (NInt 2)"

definition standard_2 :: node where "standard_2 = Scalar unset (NInt 2)"

definition deleted_0 :: node where "deleted_0 = Scalar (unset\<lparr>n_delete := Some True\<rparr>) (NInt 0)"

definition not_new_1 :: node where
  "not_new_1 = Scalar (unset\<lparr>n_allow_new := Some False\<rparr>) (NInt 1)"

definition inherited_not_new_1 :: node where
  "inherited_not_new_1 = Scalar (unset\<lparr>n_implicit_allow_new := Some False\<rparr>) (NInt 1)"



section \<open>Nodes as objects in a store\<close>

text \<open>
  Where the identity of a node matters, a node is an object in a store: the store is the list
  of the objects created so far, the address of an object is its position, and a new object
  goes to the end. A Python value is a reference to a node or a native value that is no node.
  A \<open>ConfigDict\<close> holds references to its children. A store mentions only addresses below its
  length; what the definitions give for other addresses has no counterpart in Python.
\<close>

type_synonym addr = nat

datatype pyobj = Ref addr | Raw native

datatype object = ScalarObject flags native | DictObject flags "(component \<times> addr) list"

type_synonym store = "object list"

fun obj_flags :: "object \<Rightarrow> flags" where
  "obj_flags (ScalarObject f v) = f"
| "obj_flags (DictObject f cs) = f"

fun with_flags :: "flags \<Rightarrow> object \<Rightarrow> object" where
  "with_flags f (ScalarObject f0 v) = ScalarObject f v"
| "with_flags f (DictObject f0 cs) = DictObject f cs"

fun obj_children :: "object \<Rightarrow> (component \<times> addr) list" where
  "obj_children (ScalarObject f v) = []"
| "obj_children (DictObject f cs) = cs"

fun obj_is_leaf :: "object \<Rightarrow> bool" where
  "obj_is_leaf (ScalarObject f v) = True"
| "obj_is_leaf (DictObject f cs) = False"

subsection \<open>\<open>ConfigNodeMeta.__call__\<close> and \<open>ConfigNode.__init__\<close>\<close>

text \<open>
  The keyword arguments of a call of the constructor. For each name, \<open>None\<close> says that the
  call does not pass it, \<open>Some v\<close> that it passes \<open>v\<close>, which may be Python's \<open>None\<close>.
\<close>

record kwargs =
  kw_idx :: "int option option"
  kw_priority :: "int option option"
  kw_delete :: "bool option option"
  kw_allow_new :: "bool option option"
  kw_metadata :: "(string \<times> native) list option option"
  kw_source_file :: "string option option"
  kw_implicit_delete :: "bool option option"
  kw_implicit_allow_new :: "bool option option"

definition no_kwargs :: kwargs where
  "no_kwargs = \<lparr>kw_idx = None, kw_priority = None, kw_delete = None, kw_allow_new = None,
     kw_metadata = None, kw_source_file = None, kw_implicit_delete = None,
     kw_implicit_allow_new = None\<rparr>"

text \<open>The value a parameter with the default \<open>None\<close> receives.\<close>

fun parameter :: "'a option option \<Rightarrow> 'a option" where
  "parameter None = None"
| "parameter (Some v) = v"

text \<open>
  \<open>ConfigNode.__init__\<close>: it refuses a priority that is none of \<open>None\<close>, \<open>STANDARD\<close>, \<open>WEAK\<close>,
  \<open>FORCE\<close> and stores the rest as it comes. No \<open>default_filename\<close> is in force, so a source
  file that is not given stays \<open>None\<close>.
\<close>

definition ConfigNode_init :: "kwargs \<Rightarrow> error + flags" where
  "ConfigNode_init kwargs =
     (if parameter (kw_priority kwargs) \<notin> set [None, Some STANDARD, Some WEAK, Some FORCE]
      then Inl ValueError
      else Inr \<lparr>n_idx = parameter (kw_idx kwargs),
                n_priority = parameter (kw_priority kwargs),
                n_delete = parameter (kw_delete kwargs),
                n_allow_new = parameter (kw_allow_new kwargs),
                n_implicit_delete = parameter (kw_implicit_delete kwargs),
                n_implicit_allow_new = parameter (kw_implicit_allow_new kwargs),
                n_source_file = parameter (kw_source_file kwargs),
                n_metadata = (case parameter (kw_metadata kwargs) of None \<Rightarrow> [] | Some m \<Rightarrow> m)\<rparr>)"

text \<open>
  The loop over \<open>_kwargs_to_inherit\<close>, which lists \<open>priority\<close>, \<open>implicit_delete\<close> and
  \<open>implicit_allow_new\<close>: each of the three that the call passes is written over the
  attribute of the node, with no test of the value.
\<close>

definition inherit_kwargs :: "kwargs \<Rightarrow> flags \<Rightarrow> flags" where
  "inherit_kwargs kwargs f =
     f\<lparr>n_priority := (case kw_priority kwargs of None \<Rightarrow> n_priority f | Some v \<Rightarrow> v),
       n_implicit_delete := (case kw_implicit_delete kwargs of None \<Rightarrow> n_implicit_delete f | Some v \<Rightarrow> v),
       n_implicit_allow_new :=
         (case kw_implicit_allow_new kwargs of None \<Rightarrow> n_implicit_allow_new f | Some v \<Rightarrow> v)\<rparr>"

text \<open>
  \<open>ConfigNode(value, **kwargs)\<close>: the call of the metaclass with \<open>cls\<close> the class \<open>ConfigNode\<close>
  itself, one positional argument, \<open>_force_type\<close> false and no \<open>nodes_memo\<close>. It returns a node
  and may change the store.
  \<^item> A value that is a node gets the inherited keyword arguments and is returned.
  \<^item> Of the other values only those of type \<open>native\<close> are modelled; they are no sequences and
    no mappings, so the type deduced is \<open>ConfigScalar\<close>. Modelled from the spec: the class
    \<open>ConfigScalar\<close> is not among the sources; its constructor is taken to run
    \<open>ConfigNode.__init__\<close> with the keyword arguments and to give a new leaf that wraps the
    value.
\<close>

definition ConfigNodeMeta_call :: "store \<Rightarrow> pyobj \<Rightarrow> kwargs \<Rightarrow> error + (addr \<times> store)" where
  "ConfigNodeMeta_call h value kwargs =
     (case value of
        Ref a \<Rightarrow> Inr (a, h[a := with_flags (inherit_kwargs kwargs (obj_flags (h ! a))) (h ! a)])
      | Raw v \<Rightarrow>
          (case ConfigNode_init kwargs of
             Inl e \<Rightarrow> Inl e
           | Inr f \<Rightarrow> Inr (length h, h @ [ScalarObject f v])))"

subsection \<open>Children in the store\<close>

definition named_children :: "store \<Rightarrow> addr \<Rightarrow> (component \<times> addr) list" where
  "named_children h self = obj_children (h ! self)"

text \<open>
  \<open>set_child(name, value)\<close> of the \<open>ConfigDict\<close> at \<open>self\<close>: \<open>_set\<close> refuses a name that an
  attribute of the class has; \<open>ComposedNode.set_child\<close> passes the value through
  \<open>ConfigNode(value)\<close> and stores the node under the name.
\<close>

definition store_set_child :: "store \<Rightarrow> addr \<Rightarrow> component \<Rightarrow> pyobj \<Rightarrow> error + store" where
  "store_set_child h self name value =
     (case h ! self of
        ScalarObject f v \<Rightarrow> Inl AttributeError
      | DictObject f cs \<Rightarrow>
          if (case name of Name s \<Rightarrow> s \<in> set ConfigDict_dir | Index i \<Rightarrow> False) then Inl ValueError
          else
            (case ConfigNodeMeta_call h value no_kwargs of
               Inl e \<Rightarrow> Inl e
             | Inr (node, h1) \<Rightarrow> Inr (h1[self := DictObject f (assign name node cs)])))"

subsection \<open>\<open>map_nodes\<close>\<close>

text \<open>
  What a pass of \<open>map_nodes\<close> works on: the store, the dictionary \<open>cache\<close> from the identity
  of a child to what replaces it (a list of pairs, a later entry before an earlier one), and,
  to speak about how often the function \<open>map_fn\<close> is called, the list of its calls so far.
  \<open>persistent_id\<close> is not among the sources; it is taken to be \<open>id\<close>, the address.
\<close>

record pass =
  heap :: store
  cache :: "(addr \<times> pyobj) list"
  calls :: "(component list \<times> addr) list"

text \<open>
  The function handed to \<open>map_nodes\<close> gets a path and a node; it reads the store, changes
  nothing, and returns a value or raises.
\<close>

type_synonym map_fn = "component list \<Rightarrow> addr \<Rightarrow> store \<Rightarrow> error + pyobj"

text \<open>The call \<open>map_fn(path, node)\<close>, written to the list of calls.\<close>

definition call_map_fn :: "map_fn \<Rightarrow> component list \<Rightarrow> addr \<Rightarrow> pass \<Rightarrow> error + (pyobj \<times> pass)" where
  "call_map_fn map_fn path node st =
     (case map_fn path node (heap st) of
        Inl e \<Rightarrow> Inl e
      | Inr r \<Rightarrow> Inr (r, st\<lparr>calls := calls st @ [(path, node)]\<rparr>))"

text \<open>The second loop of \<open>map_nodes\<close>: \<open>set_child\<close> for each pair of \<open>to_re_set\<close>.\<close>

fun re_set :: "store \<Rightarrow> addr \<Rightarrow> (component \<times> pyobj) list \<Rightarrow> error + store" where
  "re_set h self [] = Inr h"
| "re_set h self ((name, child) # rest) =
     (case store_set_child h self name child of
        Inl e \<Rightarrow> Inl e
      | Inr h1 \<Rightarrow> re_set h1 self rest)"

text \<open>
  \<open>map_nodes(map_fn, prefix, cache_results, cache, leafs_only)\<close> on the node at \<open>self\<close>, and its
  first loop, over the children, which returns \<open>to_re_set\<close>.
  \<^item> A node that reaches itself through its children makes the recursion endless (Python
    ends it with \<open>RecursionError\<close>). The first argument bounds the depth of the recursion;
    \<open>None\<close> is a pass that needs more.
  \<^item> An exception ends the pass; what it leaves in the store is not kept.
  \<^item> A leaf has no \<open>map_nodes\<close>.
\<close>

fun map_nodes :: "nat \<Rightarrow> map_fn \<Rightarrow> bool \<Rightarrow> bool \<Rightarrow> component list \<Rightarrow> addr \<Rightarrow> pass
      \<Rightarrow> (error + pyobj \<times> pass) option"
  and map_children :: "nat \<Rightarrow> map_fn \<Rightarrow> bool \<Rightarrow> bool \<Rightarrow> component list
      \<Rightarrow> (component \<times> addr) list \<Rightarrow> pass \<Rightarrow> (error + (component \<times> pyobj) list \<times> pass) option" where
  "map_nodes 0 map_fn cache_results leafs_only prefix self st = None"
| "map_nodes (Suc n) map_fn cache_results leafs_only prefix self st =
     (if obj_is_leaf (heap st ! self) then Some (Inl AttributeError)
      else
        (case map_children n map_fn cache_results leafs_only prefix (named_children (heap st) self) st of
           None \<Rightarrow> None
         | Some (Inl e) \<Rightarrow> Some (Inl e)
         | Some (Inr (to_re_set, st1)) \<Rightarrow>
             (case re_set (heap st1) self to_re_set of
                Inl e \<Rightarrow> Some (Inl e)
              | Inr h2 \<Rightarrow>
                  if \<not> leafs_only then Some (call_map_fn map_fn prefix self (st1\<lparr>heap := h2\<rparr>))
                  else Some (Inr (Ref self, st1\<lparr>heap := h2\<rparr>)))))"
| "map_children n map_fn cache_results leafs_only prefix [] st = Some (Inr ([], st))"
| "map_children n map_fn cache_results leafs_only prefix ((name, child) # rest) st =
     (case (case (if cache_results then map_of (cache st) child else None) of
              Some cached \<Rightarrow> Some (Inr (cached, st))
            | None \<Rightarrow>
                if \<not> obj_is_leaf (heap st ! child)
                then map_nodes n map_fn cache_results leafs_only (prefix @ [name]) child st
                else Some (call_map_fn map_fn (prefix @ [name]) child st)) of
        None \<Rightarrow> None
      | Some (Inl e) \<Rightarrow> Some (Inl e)
      | Some (Inr (possibly_new_child, st1)) \<Rightarrow>
          (case map_children n map_fn cache_results leafs_only prefix rest
                  (if cache_results then st1\<lparr>cache := (child, possibly_new_child) # cache st1\<rparr> else st1) of
             None \<Rightarrow> None
           | Some (Inl e) \<Rightarrow> Some (Inl e)
           | Some (Inr (to_re_set, st2)) \<Rightarrow>
               Some (Inr ((if possibly_new_child \<noteq> Ref child then [(name, possibly_new_child)] else [])
                          @ to_re_set, st2))))"

subsection \<open>The hooks and the passes built on \<open>map_nodes\<close>\<close>

text \<open>
  \<open>_get_value\<close>: a \<open>ConfigDict\<close> returns itself. Modelled from the spec: the class
  \<open>ConfigScalar\<close> is not among the sources; a scalar leaf is taken to return the native
  value it wraps.
\<close>

definition get_value :: "store \<Rightarrow> addr \<Rightarrow> pyobj" where
  "get_value h self = (case h ! self of ScalarObject f v \<Rightarrow> Raw v | DictObject f cs \<Rightarrow> Ref self)"

text \<open>\<open>on_evaluate(path, ctx)\<close> returns \<open>self.ayns.value\<close>; \<open>on_premerge\<close> and \<open>on_preprocess\<close> return \<open>self\<close>.\<close>

definition on_evaluate :: "addr \<Rightarrow> component list \<Rightarrow> addr \<Rightarrow> store \<Rightarrow> error + pyobj" where
  "on_evaluate ctx path self h = Inr (get_value h self)"

definition on_premerge :: "pyobj \<Rightarrow> component list \<Rightarrow> addr \<Rightarrow> store \<Rightarrow> error + pyobj" where
  "on_premerge into path self h = Inr (Ref self)"

text \<open>
  \<open>evaluate_node(path, root)\<close>: the result of \<open>on_evaluate\<close>, under the two assertions that it
  is not \<open>self\<close> and is no \<open>ConfigNode\<close>.
\<close>

definition evaluate_node :: "component list \<Rightarrow> addr \<Rightarrow> addr \<Rightarrow> store \<Rightarrow> error + pyobj" where
  "evaluate_node path root self h =
     (case on_evaluate root path self h of
        Inl e \<Rightarrow> Inl e
      | Inr evaluated \<Rightarrow>
          if evaluated = Ref self then Inl AssertionError
          else (case evaluated of Ref a \<Rightarrow> Inl AssertionError | Raw v \<Rightarrow> Inr evaluated))"

text \<open>
  \<open>evaluate()\<close> and \<open>premerge(into)\<close> of a composed node: \<open>map_nodes\<close> with the hook, a new
  cache, and \<open>leafs_only=False\<close>.
\<close>

definition new_pass :: "store \<Rightarrow> pass" where
  "new_pass h = \<lparr>heap = h, cache = [], calls = []\<rparr>"

definition evaluate :: "nat \<Rightarrow> addr \<Rightarrow> store \<Rightarrow> (error + pyobj \<times> pass) option" where
  "evaluate n self h = map_nodes n (on_evaluate self) True False [] self (new_pass h)"

definition premerge :: "nat \<Rightarrow> addr \<Rightarrow> pyobj \<Rightarrow> store \<Rightarrow> (error + pyobj \<times> pass) option" where
  "premerge n self into h = map_nodes n (on_premerge into) True False [] self (new_pass h)"

subsection \<open>Examples\<close>

text \<open>The store of \<open>{a: x, b: x}\<close> for one leaf \<open>x\<close> with the value 1: the leaf, then the dictionary.\<close>

definition shared_leaf :: store where
  "shared_leaf = [ScalarObject unset (NInt 1),
                  DictObject unset [(Name ''a'', 0), (Name ''b'', 0)]]"

text \<open>The store of one leaf, and a call that passes \<open>delete\<close> and \<open>allow_new\<close>.\<close>

definition one_leaf :: store where
  "one_leaf = [ScalarObject unset (NInt 1)]"

definition delete_and_not_new :: kwargs where
  "delete_and_not_new = no_kwargs\<lparr>kw_delete := Some (Some True), kw_allow_new := Some (Some False)\<rparr>"

definition force_and_delete :: kwargs where
  "force_and_delete = no_kwargs\<lparr>kw_priority := Some (Some FORCE), kw_delete := Some (Some True)\<rparr>"

subsection \<open>Paths in the store\<close>

text \<open>
  The loop of \<open>get_node\<close> on nodes in the store, as for nodes by content: the nodes visited,
  \<open>self\<close> first, with \<open>None\<close> last when a component is missing.
\<close>

fun store_get_node_ret :: "store \<Rightarrow> addr \<Rightarrow> component list \<Rightarrow> addr option list" where
  "store_get_node_ret h self [] = [Some self]"
| "store_get_node_ret h self (c # path) =
     Some self # (case map_of (named_children h self) c of
                    None \<Rightarrow> [None]
                  | Some child \<Rightarrow> store_get_node_ret h child path)"

definition store_get_node :: "store \<Rightarrow> addr \<Rightarrow> component list \<Rightarrow> addr option" where
  "store_get_node h self path = last (store_get_node_ret h self path)"

definition store_get_first_not_missing_node :: "store \<Rightarrow> addr \<Rightarrow> component list \<Rightarrow> addr" where
  "store_get_first_not_missing_node h self path =
     (let nodes = store_get_node_ret h self path in
      case last nodes of
        Some n \<Rightarrow> n
      | None \<Rightarrow> (case last (butlast nodes) of Some n \<Rightarrow> n | None \<Rightarrow> self))"

subsection \<open>\<open>filter_nodes\<close> and \<open>ComposedNode.merge\<close> in the store\<close>

text \<open>
  The properties \<open>priority\<close> and \<open>delete\<close>, \<open>has_priority_over\<close> and the truth value, read from
  the object in the store.
\<close>

definition store_priority :: "store \<Rightarrow> addr \<Rightarrow> int" where
  "store_priority h self =
     (case n_priority (obj_flags (h ! self)) of None \<Rightarrow> default_priority | Some p \<Rightarrow> p)"

definition store_delete :: "store \<Rightarrow> addr \<Rightarrow> bool" where
  "store_delete h self =
     (case n_delete (obj_flags (h ! self)) of
        None \<Rightarrow> (case n_implicit_delete (obj_flags (h ! self)) of Some d \<Rightarrow> d | None \<Rightarrow> default_delete)
      | Some d \<Rightarrow> d)"

definition store_has_priority_over :: "store \<Rightarrow> addr \<Rightarrow> addr \<Rightarrow> bool \<Rightarrow> bool" where
  "store_has_priority_over h self other if_equal =
     (if store_priority h self = store_priority h other then if_equal
      else store_priority h self > store_priority h other)"

definition store_truth :: "store \<Rightarrow> addr \<Rightarrow> bool" where
  "store_truth h self =
     (case h ! self of ScalarObject f v \<Rightarrow> native_truth v | DictObject f cs \<Rightarrow> cs \<noteq> [])"

definition store_remove_child :: "store \<Rightarrow> addr \<Rightarrow> component \<Rightarrow> store" where
  "store_remove_child h self name =
     (case h ! self of
        ScalarObject f v \<Rightarrow> h
      | DictObject f cs \<Rightarrow> h[self := DictObject f (filter (\<lambda>kv. fst kv \<noteq> name) cs)])"

text \<open>
  \<open>filter_nodes(condition, prefix)\<close> on the node at \<open>self\<close>: the loop over the children
  returns the list \<open>to_del\<close>, whose names are removed afterwards, last first. The condition
  reads the store as it is when it is called. A composed child is filtered in place, so
  every path that leads to the same object sees what is left of it. The first argument
  bounds the depth of the recursion, as for \<open>map_nodes\<close>.
\<close>

type_synonym store_condition = "component list \<Rightarrow> addr \<Rightarrow> store \<Rightarrow> bool"

fun store_filter_nodes :: "nat \<Rightarrow> store_condition \<Rightarrow> component list \<Rightarrow> addr \<Rightarrow> store \<Rightarrow> store option"
  and store_filter_loop :: "nat \<Rightarrow> store_condition \<Rightarrow> component list \<Rightarrow> (component \<times> addr) list
      \<Rightarrow> store \<Rightarrow> (component list \<times> store) option" where
  "store_filter_nodes 0 condition prefix self h = None"
| "store_filter_nodes (Suc n) condition prefix self h =
     (case store_filter_loop n condition prefix (named_children h self) h of
        None \<Rightarrow> None
      | Some (to_del, h1) \<Rightarrow> Some (fold (\<lambda>name h'. store_remove_child h' self name) (rev to_del) h1))"
| "store_filter_loop n condition prefix [] h = Some ([], h)"
| "store_filter_loop n condition prefix ((name, child) # rest) h =
     (case (if \<not> obj_is_leaf (h ! child)
            then (case store_filter_nodes n condition (prefix @ [name]) child h of
                    None \<Rightarrow> None
                  | Some h1 \<Rightarrow> Some (condition (prefix @ [name]) child h \<and> store_truth h1 child, h1))
            else Some (condition (prefix @ [name]) child h, h)) of
        None \<Rightarrow> None
      | Some (keep, h1) \<Rightarrow>
          (case store_filter_loop n condition prefix rest h1 of
             None \<Rightarrow> None
           | Some (to_del, h2) \<Rightarrow> Some ((if \<not> keep then [name] else []) @ to_del, h2)))"

text \<open>The condition \<open>maybe_keep\<close> of \<open>merge\<close>, and the step of its loop where the priorities decide.\<close>

definition store_maybe_keep :: "addr \<Rightarrow> store_condition" where
  "store_maybe_keep other path node h =
     (if (case store_get_node h other path of Some n \<Rightarrow> store_truth h n | None \<Rightarrow> False) then True
      else store_has_priority_over h node (store_get_first_not_missing_node h other path) False)"

definition store_merge_by_priority :: "store \<Rightarrow> addr \<Rightarrow> component \<Rightarrow> addr \<Rightarrow> addr \<Rightarrow> error + store" where
  "store_merge_by_priority h self key child value =
     (if store_has_priority_over h value child True then
        (if \<not> store_truth h value \<and> store_delete h value then Inr (store_remove_child h self key)
         else store_set_child h self key (Ref value))
      else Inr h)"

text \<open>A call that returns or raises, with the store as the call leaves it.\<close>

datatype store_outcome = StoreReturned store | StoreRaised error store

text \<open>
  \<open>merge(self, other)\<close> of the namespace of \<open>ComposedNode\<close> on the nodes at \<open>self\<close> and \<open>other\<close>,
  and its loop over the children of \<open>other\<close>. The steps are those of \<open>merge\<close> for nodes by
  content; here the recursive call changes the child in place, for every path that leads to
  it. \<open>premerge\<close> maps a function that returns each node as it is, so it leaves the store as
  it is also when it raises. The first argument bounds the depth of the recursion.
\<close>

fun store_merge :: "nat \<Rightarrow> addr \<Rightarrow> addr \<Rightarrow> store \<Rightarrow> store_outcome option"
  and store_merge_items :: "nat \<Rightarrow> addr \<Rightarrow> (component \<times> addr) list \<Rightarrow> store \<Rightarrow> store_outcome option" where
  "store_merge 0 self other h = None"
| "store_merge (Suc n) self other h =
     (if obj_is_leaf (h ! other) then Some (StoreRaised AttributeError h)
      else
        (case premerge n other (Ref self) h of
           None \<Rightarrow> None
         | Some (Inl e) \<Rightarrow> Some (StoreRaised e h)
         | Some (Inr (r, st)) \<Rightarrow>
             (case (if store_delete (heap st) other
                    then store_filter_nodes n (store_maybe_keep other) [] self (heap st)
                    else Some (heap st)) of
                None \<Rightarrow> None
              | Some h1 \<Rightarrow> store_merge_items n self (named_children h1 other) h1)))"
| "store_merge_items n self [] h = Some (StoreReturned h)"
| "store_merge_items n self ((key, value) # rest) h =
     (case map_of (named_children h self) key of
        None \<Rightarrow>
          (case store_set_child h self key (Ref value) of
             Inl e \<Rightarrow> Some (StoreRaised e h)
           | Inr h1 \<Rightarrow> store_merge_items n self rest h1)
      | Some child \<Rightarrow>
          if \<not> obj_is_leaf (h ! child) then
            (case store_merge n child value h of
               None \<Rightarrow> None
             | Some (StoreReturned h1) \<Rightarrow>
                 if \<not> store_truth h1 child \<and> \<not> store_has_priority_over h1 child value False
                 then store_merge_items n self rest (store_remove_child h1 self key)
                 else store_merge_items n self rest h1
             | Some (StoreRaised e h1) \<Rightarrow>
                 if e = TypeError \<or> e = AttributeError then
                   (case store_merge_by_priority h1 self key child value of
                      Inl e' \<Rightarrow> Some (StoreRaised e' h1)
                    | Inr h2 \<Rightarrow> store_merge_items n self rest h2)
                 else Some (StoreRaised e h1))
          else
            (case store_merge_by_priority h self key child value of
               Inl e \<Rightarrow> Some (StoreRaised e h)
             | Inr h1 \<Rightarrow> store_merge_items n self rest h1))"



subsection \<open>Notions used to state the properties of \<open>map_nodes\<close>\<close>





text \<open>
  How the cache grows: new entries are for nodes of the store of the beginning with a rank
  below \<open>r\<close>, and an entry that is there keeps its value.
\<close>

definition cache_grows :: "(addr \<Rightarrow> nat) \<Rightarrow> nat \<Rightarrow> store \<Rightarrow> pass \<Rightarrow> pass \<Rightarrow> bool" where
  "cache_grows rk r h0 st st' =
     (fst ` set (cache st') \<subseteq> fst ` set (cache st) \<union> {a. a < length h0 \<and> rk a < r}
      \<and> (\<forall>a \<in> fst ` set (cache st). map_of (cache st') a = map_of (cache st) a))"






section \<open>Properties of the path language\<close>

lemma validate_matches_eq:
  "validate_matches ms e =
     (if no_gaps (case e of Some x \<Rightarrow> x | None \<Rightarrow> 0) ms then Inr (final_end e ms) else Inl ValueError)"
  by (induction ms arbitrary: e) auto

text \<open>
  Claim C6. \<open>split_path\<close> (with validation) raises \<open>ValueError\<close>, the specification's
  \<open>InvalidPath\<close>, on every string whose matches leave a gap (before the first match or
  between two matches), and on every non-empty string whose last match does not end at the end
  of the string (also when there is no match at all). In particular it rejects \<open>a..b\<close>,
  \<open>a[x]\<close>, \<open>.a\<close>, \<open>a.\<close> and \<open>a[1\<close>.
\<close>

theorem split_path_rejects_malformed:
  "(\<not> no_gaps 0 (finditer s) \<longrightarrow> split_path s True = Inl ValueError)
   \<and> (s \<noteq> [] \<and> final_end None (finditer s) \<noteq> Some (length s) \<longrightarrow> split_path s True = Inl ValueError)
   \<and> split_path ''a..b'' True = Inl ValueError
   \<and> split_path ''a[x]'' True = Inl ValueError
   \<and> split_path ''.a'' True = Inl ValueError
   \<and> split_path ''a.'' True = Inl ValueError
   \<and> split_path ''a[1'' True = Inl ValueError"
proof -
  have gap: "\<not> no_gaps 0 (finditer s) \<longrightarrow> split_path s True = Inl ValueError"
    by (simp add: split_path_def validate_matches_eq)
  have rest: "s \<noteq> [] \<and> final_end None (finditer s) \<noteq> Some (length s) \<longrightarrow> split_path s True = Inl ValueError"
    by (simp add: split_path_def validate_matches_eq Let_def)
  have e1: "split_path ''a..b'' True = Inl ValueError" by code_simp
  have e2: "split_path ''a[x]'' True = Inl ValueError" by code_simp
  have e3: "split_path ''.a'' True = Inl ValueError" by code_simp
  have e4: "split_path ''a.'' True = Inl ValueError" by code_simp
  have e5: "split_path ''a[1'' True = Inl ValueError" by code_simp
  from gap rest e1 e2 e3 e4 e5 show ?thesis by blast
qed

text \<open>The two hypotheses of C6 hold at \<open>a..b\<close> (a gap) and at \<open>a[\<close> (a remainder).\<close>

theorem split_path_rejects_malformed_witness:
  "\<not> no_gaps 0 (finditer ''a..b'') \<and> split_path ''a..b'' True = Inl ValueError
   \<and> ''a['' \<noteq> [] \<and> final_end None (finditer ''a['') \<noteq> Some (length ''a['')
   \<and> split_path ''a['' True = Inl ValueError"
proof -
  have g: "\<not> no_gaps 0 (finditer ''a..b'')" by code_simp
  have r: "''a['' \<noteq> [] \<and> final_end None (finditer ''a['') \<noteq> Some (length ''a['')" by code_simp
  from g split_path_rejects_malformed [of "''a..b''"] have a: "split_path ''a..b'' True = Inl ValueError" by blast
  from r split_path_rejects_malformed [of "''a[''"] have b: "split_path ''a['' True = Inl ValueError" by blast
  from g r a b show ?thesis by blast
qed

lemma is_digit_cases:
  "is_digit c \<Longrightarrow> digit_val c < 10 \<and> digit_char (digit_val c) = c \<and> c \<noteq> CHR ''-''
     \<and> (digit_val c = 0 \<longrightarrow> c = CHR ''0'')"
  unfolding is_digit_def digit_val_def digit_char_def by auto

lemma nat_of_digits_snoc: "nat_of_digits (ds @ [d]) = 10 * nat_of_digits ds + digit_val d"
  by (simp add: nat_of_digits_def)

lemma nat_of_digits_pos:
  "ds \<noteq> [] \<Longrightarrow> \<forall>c\<in>set ds. is_digit c \<Longrightarrow> hd ds \<noteq> CHR ''0'' \<Longrightarrow> 0 < nat_of_digits ds"
proof (induction ds rule: rev_induct)
  case Nil
  then show ?case by simp
next
  case (snoc d ds)
  show ?case
  proof (cases "ds = []")
    case True
    with snoc.prems is_digit_cases [of d] show ?thesis
      by (auto simp: nat_of_digits_def)
  next
    case False
    with snoc have "0 < nat_of_digits ds" by auto
    then show ?thesis by (simp add: nat_of_digits_snoc)
  qed
qed

lemma digits_of_nat_of_digits:
  "ds \<noteq> [] \<Longrightarrow> \<forall>c\<in>set ds. is_digit c \<Longrightarrow> hd ds \<noteq> CHR ''0'' \<or> ds = ''0''
     \<Longrightarrow> digits_of_nat (nat_of_digits ds) = ds"
proof (induction ds rule: rev_induct)
  case Nil
  then show ?case by simp
next
  case (snoc d ds)
  have d: "is_digit d" using snoc.prems by simp
  show ?case
  proof (cases "ds = []")
    case True
    with d is_digit_cases [of d] show ?thesis
      by (simp add: nat_of_digits_def digits_of_nat.simps)
  next
    case False
    with snoc.prems have h: "hd ds \<noteq> CHR ''0''" by auto
    with False snoc.prems have pos: "0 < nat_of_digits ds"
      by (intro nat_of_digits_pos) auto
    from False h snoc have ih: "digits_of_nat (nat_of_digits ds) = ds" by auto
    let ?n = "10 * nat_of_digits ds + digit_val d"
    from d is_digit_cases [of d] have lt: "digit_val d < 10" by simp
    from pos have "\<not> ?n < 10" by simp
    then have "digits_of_nat ?n = digits_of_nat (?n div 10) @ [digit_char (?n mod 10)]"
      by (subst digits_of_nat.simps) simp
    also from lt have "?n div 10 = nat_of_digits ds" by simp
    also from lt have "?n mod 10 = digit_val d" by simp
    finally show ?thesis using ih d is_digit_cases [of d] by (simp add: nat_of_digits_snoc)
  qed
qed

lemma py_str_int_py_int:
  assumes "ds \<noteq> []" and "\<forall>c\<in>set ds. is_digit c" and "sign = [] \<or> sign = ''-''"
    and "canonical_int_text (sign @ ds)"
  shows "py_str_int (py_int (sign @ ds)) = sign @ ds"
proof -
  from assms(1,2) have hd_digit: "is_digit (hd ds)" by (cases ds) auto
  then have hd_not_minus: "hd ds \<noteq> CHR ''-''" using is_digit_cases by blast
  from assms(3) show ?thesis
  proof
    assume s: "sign = []"
    with assms(4) assms(1) hd_not_minus have "hd ds \<noteq> CHR ''0'' \<or> ds = ''0''"
      by (auto simp: canonical_int_text_def)
    with assms(1,2) have "digits_of_nat (nat_of_digits ds) = ds"
      by (rule digits_of_nat_of_digits)
    with s assms(1) hd_not_minus show ?thesis by (simp add: py_int_def py_str_int_def)
  next
    assume s: "sign = ''-''"
    with assms(4) have h: "hd ds \<noteq> CHR ''0''" by (auto simp: canonical_int_text_def)
    with assms(1,2) have pos: "0 < nat_of_digits ds" by (intro nat_of_digits_pos) auto
    from h assms(1,2) have "digits_of_nat (nat_of_digits ds) = ds"
      by (intro digits_of_nat_of_digits) auto
    with s pos show ?thesis by (simp add: py_int_def py_str_int_def)
  qed
qed

lemma match_bracket_Some:
  assumes "match_bracket cs = Some (n, g1, g2)"
  shows "\<exists>sign ds rest'. (sign = [] \<or> sign = ''-'') \<and> ds \<noteq> [] \<and> (\<forall>d\<in>set ds. is_digit d)
           \<and> cs = sign @ ds @ CHR '']'' # rest' \<and> n = length sign + length ds + 2
           \<and> g1 = None \<and> g2 = Some (sign @ ds)"
proof -
  define sign where "sign = (if cs \<noteq> [] \<and> hd cs = CHR ''-'' then [CHR ''-''] else [])"
  define r' where "r' = drop (length sign) cs"
  define ds where "ds = takeWhile is_digit r'"
  define r'' where "r'' = dropWhile is_digit r'"
  from assms have ok: "ds \<noteq> [] \<and> r'' \<noteq> [] \<and> hd r'' = CHR '']''"
    and res: "n = length sign + length ds + 2" "g1 = None" "g2 = Some (sign @ ds)"
    unfolding match_bracket_def sign_def [symmetric] r'_def [symmetric] ds_def [symmetric] r''_def [symmetric] Let_def
    by (auto split: if_splits)
  have cs: "cs = sign @ r'"
    unfolding r'_def sign_def by (cases cs) auto
  have r': "r' = ds @ r''" unfolding ds_def r''_def by simp
  from ok have r'': "r'' = CHR '']'' # tl r''" by (cases r'') auto
  have dig: "\<forall>d\<in>set ds. is_digit d" unfolding ds_def by (auto dest: set_takeWhileD)
  have sg: "sign = [] \<or> sign = ''-''" unfolding sign_def by simp
  from cs r' r'' have "cs = sign @ ds @ CHR '']'' # tl r''" by simp
  with sg ok dig res show ?thesis by blast
qed

lemma match_here_Some:
  assumes "match_here prev (c # cs) = Some (n, g1, g2)"
  shows "(is_ident c \<and> (prev = None \<or> prev = Some CHR ''.'')
            \<and> n = length (takeWhile is_ident (c # cs))
            \<and> g1 = Some (takeWhile is_ident (c # cs)) \<and> g2 = None)
       \<or> (c = CHR ''['' \<and> match_bracket cs = Some (n, g1, g2))
       \<or> (c = CHR ''.'' \<and> prev \<noteq> None \<and> cs \<noteq> [] \<and> hd cs \<noteq> CHR ''.'' \<and> hd cs \<noteq> CHR ''[''
            \<and> n = 1 \<and> g1 = None \<and> g2 = None)"
  using assms unfolding match_here_def at_dollar_def
  by (auto split: if_splits)

lemma match_here_pos: "match_here prev (c # cs) = Some (n, g1, g2) \<Longrightarrow> 0 < n"
  by (drule match_here_Some) (auto dest!: match_bracket_Some)

lemma finditer_from_start:
  "m \<in> set (finditer_from prev rest pos) \<Longrightarrow> pos \<le> m_start m"
proof (induction prev rest pos rule: finditer_from.induct)
  case (1 prev pos)
  then show ?case by simp
next
  case (2 prev c cs pos)
  then show ?case by (fastforce split: option.splits)
qed

lemma ident_not_dot: "is_ident c \<Longrightarrow> c \<noteq> CHR ''.''"
  by (auto simp: is_ident_def is_digit_def)

lemma roundtrip_from:
  assumes "no_gaps pos (finditer_from prev rest pos)"
    and "final_end (Some pos) (finditer_from prev rest pos) = Some (pos + length rest)"
    and "list_all canonical_index (finditer_from prev rest pos)"
    and "(prev = None) = (ret = [])"
    and "prev = Some CHR ''.'' \<longrightarrow> rest \<noteq> [] \<and> hd rest \<noteq> CHR ''.'' \<and> hd rest \<noteq> CHR ''[''"
  shows "foldl accessor_step ret (yield_components (finditer_from prev rest pos))
           = (if prev = Some CHR ''.'' then ret @ ''.'' @ rest else ret @ rest)"
  using assms
proof (induction prev rest pos arbitrary: ret rule: finditer_from.induct)
  case (1 prev pos)
  then show ?case by auto
next
  case (2 prev c cs pos)
  show ?case
  proof (cases "match_here prev (c # cs)")
    case None
    let ?ms = "finditer_from (Some c) cs (pos + 1)"
    from None "2.prems"(1,2) have ng: "no_gaps pos ?ms" and fe: "final_end (Some pos) ?ms = Some (pos + length (c # cs))"
      by simp_all
    show ?thesis
    proof (cases ?ms)
      case Nil
      with fe show ?thesis by simp
    next
      case (Cons m ms)
      then have "m \<in> set ?ms" by simp
      then have "pos + 1 \<le> m_start m" by (rule finditer_from_start)
      with ng Cons show ?thesis by simp
    qed
  next
    case (Some res)
    obtain n g1 g2 where res: "res = (n, g1, g2)" by (cases res)
    with Some have mh: "match_here prev (c # cs) = Some (n, g1, g2)" by simp
    let ?prev' = "Some ((c # cs) ! (n - 1))"
    let ?rest' = "drop (n - 1) cs"
    let ?ms = "finditer_from ?prev' ?rest' (pos + n)"
    have unfold: "finditer_from prev (c # cs) pos = RMatch pos (pos + n) g1 g2 # ?ms"
      using mh by simp
    from mh have npos: "0 < n" by (rule match_here_pos)
    from "2.prems"(1) unfold have ng: "no_gaps (pos + n) ?ms" by simp
    from "2.prems"(2) unfold have fe0: "final_end (Some (pos + n)) ?ms = Some (pos + length (c # cs))" by simp
    from "2.prems"(3) unfold have can: "list_all canonical_index ?ms"
      and can_m: "canonical_index (RMatch pos (pos + n) g1 g2)" by simp_all
    have drop_eq: "?rest' = drop n (c # cs)" using npos by (cases n) auto
    have IH: "\<And>ret'. no_gaps (pos + n) ?ms \<Longrightarrow>
        final_end (Some (pos + n)) ?ms = Some (pos + n + length ?rest') \<Longrightarrow>
        list_all canonical_index ?ms \<Longrightarrow>
        (?prev' = None) = (ret' = []) \<Longrightarrow>
        (?prev' = Some CHR ''.'' \<longrightarrow> ?rest' \<noteq> [] \<and> hd ?rest' \<noteq> CHR ''.'' \<and> hd ?rest' \<noteq> CHR ''['') \<Longrightarrow>
        foldl accessor_step ret' (yield_components ?ms)
          = (if ?prev' = Some CHR ''.'' then ret' @ ''.'' @ ?rest' else ret' @ ?rest')"
      using "2.IH"(2) [OF Some res [symmetric] refl] by blast
    from match_here_Some [OF mh] consider
      (name) "is_ident c" "prev = None \<or> prev = Some CHR ''.''"
          "n = length (takeWhile is_ident (c # cs))" "g1 = Some (takeWhile is_ident (c # cs))" "g2 = None"
      | (index) "c = CHR ''[''" "match_bracket cs = Some (n, g1, g2)"
      | (dot) "c = CHR ''.''" "prev \<noteq> None" "cs \<noteq> []" "hd cs \<noteq> CHR ''.''" "hd cs \<noteq> CHR ''[''"
          "n = 1" "g1 = None" "g2 = None"
      by blast
    then show ?thesis
    proof cases
      case name
      define nm where "nm = takeWhile is_ident (c # cs)"
      have name_ne: "nm \<noteq> []" unfolding nm_def using name(1) by simp
      have n_len: "n = length nm" unfolding nm_def by (rule name(3))
      have "drop n (c # cs) = dropWhile is_ident (c # cs)"
        unfolding name(3) by (rule dropWhile_eq_drop [symmetric])
      with drop_eq have dw: "?rest' = dropWhile is_ident (c # cs)" by simp
      have split: "c # cs = nm @ ?rest'"
        unfolding dw nm_def by (rule takeWhile_dropWhile_id [symmetric])
      have lt: "n - 1 < length nm" using n_len npos by simp
      have "(c # cs) ! (n - 1) = (nm @ ?rest') ! (n - 1)"
        by (rule arg_cong [where f = "\<lambda>xs. xs ! (n - 1)", OF split])
      also have "\<dots> = nm ! (n - 1)" using lt by (simp only: nth_append if_True)
      also have "\<dots> = last nm" using name_ne n_len by (simp add: last_conv_nth)
      finally have prev'_eq: "(c # cs) ! (n - 1) = last nm" .
      have "last nm \<in> set nm" using name_ne by simp
      then have id_last: "is_ident (last nm)" unfolding nm_def by (auto dest: set_takeWhileD)
      then have nd: "(c # cs) ! (n - 1) \<noteq> CHR ''.''" using prev'_eq ident_not_dot by simp
      define ret' where "ret' = ret @ (if ret \<noteq> [] then ''.'' else []) @ nm"
      have ret'_ne: "ret' \<noteq> []" unfolding ret'_def using name_ne by simp
      have "length (c # cs) = length (nm @ ?rest')"
        by (rule arg_cong [where f = length, OF split])
      then have len: "pos + length (c # cs) = pos + n + length ?rest'"
        using n_len by (simp only: length_append add.assoc)
      have "foldl accessor_step ret' (yield_components ?ms) = ret' @ ?rest'"
        using IH [of ret'] ng fe0 can nd ret'_ne unfolding len by simp
      moreover have "yield_components (finditer_from prev (c # cs) pos) = Name nm # yield_components ?ms"
        unfolding unfold using name(4,5) name_ne unfolding nm_def [symmetric] by (simp add: yield_component_def)
      moreover have "accessor_step ret (Name nm) = ret'"
        unfolding ret'_def accessor_step_def get_child_accessor_def by simp
      ultimately have "foldl accessor_step ret (yield_components (finditer_from prev (c # cs) pos)) = ret' @ ?rest'"
        by (simp only: foldl_Cons)
      also have "ret' @ ?rest' = (if prev = Some CHR ''.'' then ret @ ''.'' @ (c # cs) else ret @ (c # cs))"
      proof (cases "prev = None")
        case True
        with "2.prems"(4) have "ret = []" by simp
        with True show ?thesis unfolding ret'_def split by simp
      next
        case False
        with name(2) have p: "prev = Some CHR ''.''" by simp
        with "2.prems"(4) have "ret \<noteq> []" by simp
        with p show ?thesis unfolding ret'_def split by simp
      qed
      finally show ?thesis .
    next
      case index
      from match_bracket_Some [OF index(2)] obtain sign ds rest'
        where b: "sign = [] \<or> sign = ''-''" "ds \<noteq> []" "\<forall>d\<in>set ds. is_digit d"
          "cs = sign @ ds @ CHR '']'' # rest'" "n = length sign + length ds + 2"
          "g1 = None" "g2 = Some (sign @ ds)"
        by blast
      let ?t = "sign @ ds"
      have rest'_eq: "?rest' = rest'" using b(4,5) by simp
      have prev'_eq: "(c # cs) ! (n - 1) = CHR '']''"
        using b(4,5) by (simp add: nth_append)
      from can_m b(7) have "canonical_int_text ?t" by (simp add: canonical_index_def)
      with b have rt: "py_str_int (py_int ?t) = ?t" by (intro py_str_int_py_int) auto
      define ret' where "ret' = ret @ ''['' @ ?t @ '']''"
      have ret'_ne: "ret' \<noteq> []" unfolding ret'_def by simp
      have len: "pos + length (c # cs) = pos + n + length rest'"
        using b(4,5) by simp
      have "foldl accessor_step ret' (yield_components ?ms) = ret' @ rest'"
        using IH [of ret'] ng fe0 can ret'_ne unfolding len rest'_eq prev'_eq by simp
      moreover have "yield_components (finditer_from prev (c # cs) pos) = Index (py_int ?t) # yield_components ?ms"
        unfolding unfold using b by (simp add: yield_component_def)
      moreover have "accessor_step ret (Index (py_int ?t)) = ret'"
        unfolding ret'_def accessor_step_def get_child_accessor_def using rt by simp
      ultimately have "foldl accessor_step ret (yield_components (finditer_from prev (c # cs) pos)) = ret' @ rest'"
        by simp
      moreover have "ret' @ rest' = ret @ (c # cs)"
        unfolding ret'_def using index(1) b(4) by simp
      moreover have "prev \<noteq> Some CHR ''.''" using "2.prems"(5) index(1) by auto
      ultimately show ?thesis by simp
    next
      case dot
      have nd: "prev \<noteq> Some CHR ''.''" using "2.prems"(5) dot(1) by auto
      have ret_ne: "ret \<noteq> []" using dot(2) "2.prems"(4) by simp
      have "foldl accessor_step ret (yield_components ?ms) = ret @ ''.'' @ cs"
        using IH [of ret] ng fe0 can ret_ne dot by simp
      moreover have "yield_components (finditer_from prev (c # cs) pos) = yield_components ?ms"
        unfolding unfold using dot by (simp add: yield_component_def)
      ultimately show ?thesis using nd dot(1) by simp
    qed
  qed
qed

lemma final_end_nonempty: "ms \<noteq> [] \<Longrightarrow> final_end e ms = final_end e' ms"
  by (cases ms) auto

lemma join_path_foldl: "join_path cs = foldl accessor_step [] cs"
proof -
  have "(\<lambda>ret component. ret @ get_child_accessor component ret) = accessor_step"
    by (intro ext) (simp add: accessor_step_def)
  then show ?thesis by (simp add: join_path_def)
qed

text \<open>
  Claim C5, amended. For every path string that \<open>split_path\<close> accepts and whose bracketed
  integers are written the way \<open>str\<close> writes them (no leading zero, no \<open>-0\<close>),
  \<open>join_path\<close> of the components gives the string back: names joined by dots with no dot
  before the first one, indices as \<open>[N]\<close> with no dot before them.
\<close>

theorem split_join_roundtrip:
  assumes "split_path s True = Inr cs"
    and "list_all canonical_index (finditer s)"
  shows "join_path cs = s"
proof (cases "s = []")
  case True
  with assms(1) show ?thesis
    by (simp add: split_path_def finditer_def join_path_def)
next
  case False
  let ?ms = "finditer_from None s 0"
  from assms(1) False have ng: "no_gaps 0 ?ms"
    and fe: "final_end None ?ms = Some (length s)"
    and cs: "cs = yield_components ?ms"
    by (auto simp: split_path_def finditer_def validate_matches_eq Let_def split: if_splits)
  from fe have "?ms \<noteq> []" by auto
  then have "final_end (Some 0) ?ms = final_end None ?ms" by (rule final_end_nonempty)
  with fe have fe': "final_end (Some 0) ?ms = Some (0 + length s)" by simp
  from assms(2) have can: "list_all canonical_index ?ms" by (simp add: finditer_def)
  have "foldl accessor_step [] (yield_components ?ms) = [] @ s"
    using roundtrip_from [OF ng fe' can, of "[]"] by simp
  with cs show ?thesis by (simp add: join_path_foldl)
qed

text \<open>The hypotheses of the round trip hold at \<open>a.b[1][-20].c_d[0]\<close>.\<close>

theorem split_join_roundtrip_witness:
  "split_path ''a.b[1][-20].c_d[0]'' True
      = Inr [Name ''a'', Name ''b'', Index 1, Index (- 20), Name ''c_d'', Index 0]
   \<and> list_all canonical_index (finditer ''a.b[1][-20].c_d[0]'')
   \<and> join_path [Name ''a'', Name ''b'', Index 1, Index (- 20), Name ''c_d'', Index 0]
      = ''a.b[1][-20].c_d[0]''"
proof -
  have a: "split_path ''a.b[1][-20].c_d[0]'' True
      = Inr [Name ''a'', Name ''b'', Index 1, Index (- 20), Name ''c_d'', Index 0]"
    by code_simp
  have b: "list_all canonical_index (finditer ''a.b[1][-20].c_d[0]'')"
    by code_simp
  from a b split_join_roundtrip [OF a b] show ?thesis by blast
qed

text \<open>
  Claim C5 as stated fails: \<open>[01]\<close> is accepted, \<open>int\<close> reads it as \<open>1\<close>, and
  \<open>join_path\<close> writes \<open>[1]\<close>.
\<close>

theorem roundtrip_leading_zero_counterexample:
  "split_path ''[01]'' True = Inr [Index 1] \<and> join_path [Index 1] \<noteq> ''[01]''"
  by code_simp

section \<open>Properties of the merge\<close>

subsection \<open>Children and paths\<close>

lemma get_child_Dict [simp]: "get_child (Dict f cs) k = map_of cs k"
  by (simp add: get_child_def)

lemma get_child_Scalar [simp]: "get_child (Scalar f v) k = None"
  by (simp add: get_child_def)

lemma get_node_ret_nonempty [simp]: "get_node_ret d p \<noteq> []"
  by (cases p) auto

lemma get_node_Nil [simp]: "get_node d [] = Some d"
  by (simp add: get_node_def)

lemma get_node_Cons:
  "get_node d (k # p) = (case get_child d k of None \<Rightarrow> None | Some c \<Rightarrow> get_node c p)"
  by (simp add: get_node_def split: option.splits)


lemma map_of_assign: "map_of (assign k v cs) k' = (if k' = k then Some v else map_of cs k')"
  by (induction cs) auto

lemma map_of_remove:
  "map_of (filter (\<lambda>kv. fst kv \<noteq> k) cs) k' = (if k' = k then None else map_of cs k')"
  by (induction cs) auto

lemma map_of_changed:
  "map_of (map (\<lambda>kv. if fst kv = k then (k, c) else kv) cs) k'
     = (if k' = k then (case map_of cs k of None \<Rightarrow> None | Some x \<Rightarrow> Some c) else map_of cs k')"
  by (induction cs) auto

lemma get_child_set_child:
  "set_child d k v = Inr d' \<Longrightarrow> get_child d' k' = (if k' = k then Some v else get_child d k')"
  by (auto simp: set_child_def map_of_assign split: node.splits component.splits if_splits)

lemma get_child_remove_child:
  "get_child (remove_child d k) k' = (if k' = k then None else get_child d k')"
  by (cases d) (simp_all add: remove_child_def map_of_remove)

lemma get_child_changed_in_place:
  "get_child (changed_in_place d k c) k'
     = (if k' = k then (case get_child d k of None \<Rightarrow> None | Some x \<Rightarrow> Some c) else get_child d k')"
  by (cases d) (simp_all add: changed_in_place_def map_of_changed)

subsection \<open>\<open>filter_nodes\<close>\<close>

lemma fold_remove_child:
  "fold (\<lambda>name self. remove_child self name) names (Dict f cs)
     = Dict f (filter (\<lambda>kv. fst kv \<notin> set names) cs)"
proof (induction names arbitrary: cs)
  case Nil
  then show ?case by simp
next
  case (Cons a names)
  have "filter (\<lambda>kv. fst kv \<notin> set names) (filter (\<lambda>kv. fst kv \<noteq> a) cs)
          = filter (\<lambda>kv. fst kv \<notin> set (a # names)) cs"
    by (induction cs) auto
  with Cons show ?case by (simp add: remove_child_def)
qed

lemma map_of_filter_notin:
  "map_of (filter (\<lambda>kv. fst kv \<notin> S) cs) k = (if k \<in> S then None else map_of cs k)"
  by (induction cs) auto

lemma filter_loop_children:
  "filter_loop condition prefix cs = (cs', to_del) \<Longrightarrow>
     map_of cs' k = map_option (filtered_child condition prefix k) (map_of cs k)"
proof (induction cs arbitrary: cs' to_del)
  case Nil
  then show ?case by simp
next
  case (Cons a cs)
  obtain name child where a: "a = (name, child)" by (cases a)
  obtain cs0 td0 where r: "filter_loop condition prefix cs = (cs0, td0)"
    by (cases "filter_loop condition prefix cs")
  from Cons.prems a r have "cs' = (name, filtered_child condition prefix name child) # cs0"
    by (auto simp: Let_def filtered_child_def)
  with Cons.IH [OF r] a show ?case by simp
qed

lemma filter_loop_to_del:
  "filter_loop condition prefix cs = (cs', to_del) \<Longrightarrow> map_of cs k = Some c \<Longrightarrow>
     k \<notin> set to_del \<Longrightarrow> keeps_child condition prefix k c"
proof (induction cs arbitrary: cs' to_del)
  case Nil
  then show ?case by simp
next
  case (Cons a cs)
  obtain name child where a: "a = (name, child)" by (cases a)
  obtain cs0 td0 where r: "filter_loop condition prefix cs = (cs0, td0)"
    by (cases "filter_loop condition prefix cs")
  from Cons.prems(1) a r
  have td: "to_del = (if keeps_child condition prefix name child then [] else [name]) @ td0"
    by (auto simp: Let_def keeps_child_def)
  show ?case
  proof (cases "name = k")
    case True
    with Cons.prems(2) a have "child = c" by simp
    with True td Cons.prems(3) show ?thesis by (auto split: if_splits)
  next
    case False
    with Cons.prems(2) a have "map_of cs k = Some c" by simp
    moreover from td Cons.prems(3) have "k \<notin> set td0" by simp
    ultimately show ?thesis using Cons.IH [OF r] by blast
  qed
qed

lemma get_child_filter_nodes:
  assumes "get_child (filter_nodes condition prefix d) k = Some c'"
  shows "\<exists>c. get_child d k = Some c \<and> keeps_child condition prefix k c
           \<and> c' = filtered_child condition prefix k c"
proof (cases d)
  case (Scalar f v)
  with assms show ?thesis by simp
next
  case (Dict f cs)
  obtain cs' to_del where r: "filter_loop condition prefix cs = (cs', to_del)"
    by (cases "filter_loop condition prefix cs")
  with Dict have fn: "filter_nodes condition prefix d = Dict f (filter (\<lambda>kv. fst kv \<notin> set to_del) cs')"
    by (simp add: fold_remove_child)
  with assms have nd: "k \<notin> set to_del" and c': "map_of cs' k = Some c'"
    by (auto simp: map_of_filter_notin split: if_splits)
  from c' filter_loop_children [OF r, of k] obtain c
    where c: "map_of cs k = Some c" "c' = filtered_child condition prefix k c"
    by (cases "map_of cs k") auto
  from filter_loop_to_del [OF r c(1) nd] c Dict show ?thesis by simp
qed













lemma merge_Returned_Dict: "merge d s = Returned d' \<Longrightarrow> \<exists>f items. s = Dict f items"
  by (cases s) auto






subsection \<open>One key of the destination through the loop of the merge\<close>

lemma filter_loop_to_del_keys:
  "filter_loop condition prefix cs = (cs', to_del) \<Longrightarrow> set to_del \<subseteq> fst ` set cs"
proof (induction cs arbitrary: cs' to_del)
  case Nil
  then show ?case by simp
next
  case (Cons a cs)
  obtain name child where a: "a = (name, child)" by (cases a)
  obtain cs0 td0 where r: "filter_loop condition prefix cs = (cs0, td0)"
    by (cases "filter_loop condition prefix cs")
  from Cons.prems a r
  have "to_del = (if keeps_child condition prefix name child then [] else [name]) @ td0"
    by (auto simp: Let_def keeps_child_def)
  with Cons.IH [OF r] a show ?case by auto
qed

lemma filter_loop_kept:
  "filter_loop condition prefix cs = (cs', to_del) \<Longrightarrow> distinct (map fst cs) \<Longrightarrow>
     map_of cs k = Some c \<Longrightarrow> keeps_child condition prefix k c \<Longrightarrow> k \<notin> set to_del"
proof (induction cs arbitrary: cs' to_del)
  case Nil
  then show ?case by simp
next
  case (Cons a cs)
  obtain name child where a: "a = (name, child)" by (cases a)
  obtain cs0 td0 where r: "filter_loop condition prefix cs = (cs0, td0)"
    by (cases "filter_loop condition prefix cs")
  from Cons.prems(1) a r
  have td: "to_del = (if keeps_child condition prefix name child then [] else [name]) @ td0"
    by (auto simp: Let_def keeps_child_def)
  show ?case
  proof (cases "name = k")
    case True
    with Cons.prems(3) a have "child = c" by simp
    moreover from filter_loop_to_del_keys [OF r] Cons.prems(2) a True have "k \<notin> set td0" by auto
    ultimately show ?thesis using td True Cons.prems(4) by simp
  next
    case False
    with Cons.prems(3) a have "map_of cs k = Some c" by simp
    with Cons.IH [OF r] Cons.prems(2,4) have "k \<notin> set td0" by simp
    with td False show ?thesis by simp
  qed
qed

lemma get_child_filter_nodes_leaf:
  assumes "distinct (map fst (children_of d))" and "get_child d k = Some c" and "is_leaf c"
  shows "get_child (filter_nodes condition [] d) k = (if condition [k] c then Some c else None)"
proof (cases d)
  case (Scalar f v)
  with assms show ?thesis by simp
next
  case (Dict f cs)
  obtain cs' to_del where r: "filter_loop condition [] cs = (cs', to_del)"
    by (cases "filter_loop condition [] cs")
  from assms Dict have c: "map_of cs k = Some c" and dist: "distinct (map fst cs)" by simp_all
  have kc: "keeps_child condition [] k c = condition [k] c"
    using assms(3) by (simp add: keeps_child_def)
  show ?thesis
  proof (cases "condition [k] c")
    case True
    with filter_loop_kept [OF r dist c] kc have "k \<notin> set to_del" by simp
    moreover from filter_loop_children [OF r, of k] c assms(3) have "map_of cs' k = Some c"
      by (simp add: filtered_child_def)
    ultimately show ?thesis using Dict r True
      by (simp add: fold_remove_child map_of_filter_notin)
  next
    case False
    have "get_child (filter_nodes condition [] d) k = None"
    proof (rule ccontr)
      assume "get_child (filter_nodes condition [] d) k \<noteq> None"
      then obtain c' where "get_child (filter_nodes condition [] d) k = Some c'" by blast
      from get_child_filter_nodes [OF this] assms(2) kc False show False by auto
    qed
    with False show ?thesis by simp
  qed
qed

text \<open>
  A round of the loop that returns: it leaves the other keys of \<open>self\<close> alone, and where the
  child is absent or a leaf the value is stored or the priorities decide.
\<close>

lemma merge_items_round:
  assumes "merge_items self ((key, val) # rest) = Returned d'"
  shows "\<exists>s1. merge_items s1 rest = Returned d'
           \<and> (\<forall>k. k \<noteq> key \<longrightarrow> get_child s1 k = get_child self k)
           \<and> (get_child self key = None \<longrightarrow> set_child self key val = Inr s1)
           \<and> (\<forall>child. get_child self key = Some child \<and> is_leaf child
                 \<longrightarrow> merge_by_priority self key child val = Inr s1)"
proof (cases "get_child self key")
  case None
  with assms obtain s1 where s1: "set_child self key val = Inr s1" "merge_items s1 rest = Returned d'"
    by (cases "set_child self key val") auto
  with None get_child_set_child [OF s1(1)] show ?thesis by auto
next
  case (Some child)
  have mbp: "\<And>s0 c s1. merge_by_priority s0 key c val = Inr s1 \<Longrightarrow>
      \<forall>k. k \<noteq> key \<longrightarrow> get_child s1 k = get_child s0 k"
    by (auto simp: merge_by_priority_def get_child_remove_child get_child_set_child split: if_splits)
  show ?thesis
  proof (cases "is_leaf child")
    case True
    with assms Some obtain s1 where s1: "merge_by_priority self key child val = Inr s1"
      "merge_items s1 rest = Returned d'"
      by (cases "merge_by_priority self key child val") auto
    with Some True mbp [OF s1(1)] show ?thesis by auto
  next
    case False
    show ?thesis
    proof (cases "merge child val")
      case (Returned pnc)
      show ?thesis
      proof (cases "\<not> truth pnc \<and> \<not> has_priority_over pnc val False")
        case True
        with assms Some False Returned have "merge_items (remove_child self key) rest = Returned d'"
          by simp
        with Some False show ?thesis by (auto simp: get_child_remove_child)
      next
        case nt: False
        with assms Some \<open>\<not> is_leaf child\<close> Returned
        have "merge_items (changed_in_place self key pnc) rest = Returned d'" by auto
        with Some False show ?thesis by (auto simp: get_child_changed_in_place)
      qed
    next
      case (Raised e child')
      let ?s0 = "changed_in_place self key child'"
      from assms Some False Raised obtain s1 where
        s1: "merge_by_priority ?s0 key child' val = Inr s1" "merge_items s1 rest = Returned d'"
        by (cases "merge_by_priority ?s0 key child' val") (auto split: if_splits)
      from mbp [OF s1(1)] have "\<forall>k. k \<noteq> key \<longrightarrow> get_child s1 k = get_child self k"
        by (simp add: get_child_changed_in_place)
      with s1 Some False show ?thesis by auto
    qed
  qed
qed

lemma merge_items_other_keys:
  "merge_items self items = Returned d' \<Longrightarrow> k \<notin> fst ` set items \<Longrightarrow> get_child d' k = get_child self k"
proof (induction items arbitrary: self)
  case Nil
  then show ?case by simp
next
  case (Cons kv rest)
  obtain key val where kv: "kv = (key, val)" by (cases kv)
  from merge_items_round [of self key val rest d'] Cons.prems(1) kv obtain s1
    where s1: "merge_items s1 rest = Returned d'" "\<forall>k. k \<noteq> key \<longrightarrow> get_child s1 k = get_child self k"
    by auto
  from Cons.prems(2) kv have "k \<noteq> key" "k \<notin> fst ` set rest" by auto
  with Cons.IH [OF s1(1)] s1(2) show ?case by simp
qed

lemma merge_items_slot:
  assumes "merge_items self items = Returned d'" and "distinct (map fst items)"
    and "map_of items k = Some v"
    and "\<And>c. get_child self k = Some c \<Longrightarrow> is_leaf c"
  shows "get_child d' k = slot_after (get_child self k) v"
  using assms
proof (induction items arbitrary: self)
  case Nil
  then show ?case by simp
next
  case (Cons kv rest)
  obtain key val where kv: "kv = (key, val)" by (cases kv)
  from merge_items_round [of self key val rest d'] Cons.prems(1) kv obtain s1
    where s1: "merge_items s1 rest = Returned d'"
      and others: "\<forall>k. k \<noteq> key \<longrightarrow> get_child s1 k = get_child self k"
      and absent: "get_child self key = None \<longrightarrow> set_child self key val = Inr s1"
      and leaf: "\<forall>child. get_child self key = Some child \<and> is_leaf child
                 \<longrightarrow> merge_by_priority self key child val = Inr s1"
    by auto
  show ?case
  proof (cases "key = k")
    case False
    with Cons.prems(3) kv have "map_of rest k = Some v" by simp
    moreover from Cons.prems(2) have "distinct (map fst rest)" by simp
    moreover from others False have same: "get_child s1 k = get_child self k" by simp
    moreover from same Cons.prems(4) have "\<And>c. get_child s1 k = Some c \<Longrightarrow> is_leaf c" by simp
    ultimately have "get_child d' k = slot_after (get_child s1 k) v"
      using Cons.IH [OF s1] by blast
    with same show ?thesis by simp
  next
    case True
    with Cons.prems(3) kv have v: "val = v" by simp
    from Cons.prems(2) kv True have "k \<notin> fst ` set rest" by auto
    with s1 have d': "get_child d' k = get_child s1 k" by (rule merge_items_other_keys)
    show ?thesis
    proof (cases "get_child self k")
      case None
      with absent True have "set_child self k val = Inr s1" by simp
      from get_child_set_child [OF this, of k] None d' v show ?thesis
        by (simp add: slot_after_def)
    next
      case (Some c)
      with Cons.prems(4) have "is_leaf c" by simp
      with leaf Some True have m: "merge_by_priority self k c val = Inr s1" by simp
      then have "get_child s1 k = slot_after (Some c) val"
        using Some
        by (auto simp: merge_by_priority_def slot_after_def get_child_remove_child
              get_child_set_child split: if_splits)
      with d' Some v show ?thesis by simp
    qed
  qed
qed

lemma has_priority_over_iff:
  "has_priority_over a b if_equal = (priority a > priority b \<or> (priority a = priority b \<and> if_equal))"
  by (auto simp: has_priority_over_def)

lemma merged_leaf_slot:
  assumes m: "merge d s = Returned d'"
    and dd: "distinct (map fst (children_of d))" and ds: "distinct (map fst (children_of s))"
    and c: "get_child d k = Some c" "is_leaf c"
    and v: "get_child s k = Some v"
  shows "get_child d' k =
           (if priority c > priority v then Some c
            else if \<not> truth v \<and> delete v \<and> \<not> delete s then None
            else Some v)"
proof -
  from merge_Returned_Dict [OF m] obtain f items where s: "s = Dict f items" by blast
  let ?d0 = "if delete s then filter_nodes (maybe_keep s) [] d else d"
  from m s have mi: "merge_items ?d0 items = Returned d'" by (auto split: if_splits)
  from ds s have di: "distinct (map fst items)" by simp
  from v s have mv: "map_of items k = Some v" by simp
  have mk: "maybe_keep s [k] c = (truth v \<or> priority c > priority v)"
    using v s by (auto simp: maybe_keep_def get_node_Cons get_first_not_missing_node_def
        has_priority_over_iff)
  have d0: "get_child ?d0 k = (if delete s \<and> \<not> (truth v \<or> priority c > priority v) then None else Some c)"
    using get_child_filter_nodes_leaf [OF dd c, of "maybe_keep s"] c(1) mk by auto
  then have "\<And>c0. get_child ?d0 k = Some c0 \<Longrightarrow> is_leaf c0"
    using c(2) by (auto split: if_splits)
  from merge_items_slot [OF mi di mv this]
  have "get_child d' k = slot_after (get_child ?d0 k) v" by blast
  with d0 show ?thesis
    by (auto simp: slot_after_def has_priority_over_iff)
qed

text \<open>
  Claim C2, amended. \<open>has_priority_over(a, b, if_equal)\<close> is true exactly when the priority of
  \<open>a\<close> is higher, or the priorities are equal and \<open>if_equal\<close> is true. When the destination
  and the source of a merge that returns hold a leaf under the same key, the destination's
  leaf stays exactly when its priority is strictly higher; otherwise the source's child takes
  its place, so the later layer wins on equal priority, except that the key is removed when
  the source's child is false in Python's sense and carries the delete flag while the source
  itself does not. (The keys of a dictionary are distinct.)
\<close>

theorem priority_decides_leaf_conflicts:
  "has_priority_over a b if_equal = (priority a > priority b \<or> (priority a = priority b \<and> if_equal))
   \<and> (merge d s = Returned d'
        \<and> distinct (map fst (children_of d)) \<and> distinct (map fst (children_of s))
        \<and> get_child d k = Some c \<and> is_leaf c \<and> get_child s k = Some v \<and> is_leaf v
      \<longrightarrow> get_child d' k =
            (if priority c > priority v then Some c
             else if \<not> truth v \<and> delete v \<and> \<not> delete s then None
             else Some v))"
  using has_priority_over_iff merged_leaf_slot by blast

text \<open>
  The hypotheses of C2 hold for the three merges of the specification: \<open>{a: 1}\<close> with
  \<open>{a: !weak 2}\<close>, with \<open>{a: !force 2}\<close> and with \<open>{a: 2}\<close>.
\<close>

theorem priority_decides_leaf_conflicts_witness:
  "merge (Dict unset [(Name ''a'', standard_1)]) (Dict unset [(Name ''a'', weak_2)])
     = Returned (Dict unset [(Name ''a'', standard_1)])
   \<and> merge (Dict unset [(Name ''a'', standard_1)]) (Dict unset [(Name ''a'', force_2)])
     = Returned (Dict unset [(Name ''a'', force_2)])
   \<and> merge (Dict unset [(Name ''a'', standard_1)]) (Dict unset [(Name ''a'', standard_2)])
     = Returned (Dict unset [(Name ''a'', standard_2)])
   \<and> distinct (map fst (children_of (Dict unset [(Name ''a'', standard_1)])))
   \<and> distinct (map fst (children_of (Dict unset [(Name ''a'', standard_2)])))
   \<and> get_child (Dict unset [(Name ''a'', standard_1)]) (Name ''a'') = Some standard_1
   \<and> is_leaf standard_1
   \<and> get_child (Dict unset [(Name ''a'', standard_2)]) (Name ''a'') = Some standard_2
   \<and> is_leaf standard_2
   \<and> get_child (Dict unset [(Name ''a'', standard_2)]) (Name ''a'')
       = (if priority standard_1 > priority standard_2 then Some standard_1
          else if \<not> truth standard_2 \<and> delete standard_2
                  \<and> \<not> delete (Dict unset [(Name ''a'', standard_2)]) then None
          else Some standard_2)"
proof -
  have w: "merge (Dict unset [(Name ''a'', standard_1)]) (Dict unset [(Name ''a'', weak_2)])
     = Returned (Dict unset [(Name ''a'', standard_1)])"
    by code_simp
  have f: "merge (Dict unset [(Name ''a'', standard_1)]) (Dict unset [(Name ''a'', force_2)])
     = Returned (Dict unset [(Name ''a'', force_2)])"
    by code_simp
  have e: "merge (Dict unset [(Name ''a'', standard_1)]) (Dict unset [(Name ''a'', standard_2)])
     = Returned (Dict unset [(Name ''a'', standard_2)])"
    by code_simp
  have h: "distinct (map fst (children_of (Dict unset [(Name ''a'', standard_1)])))
   \<and> distinct (map fst (children_of (Dict unset [(Name ''a'', standard_2)])))
   \<and> get_child (Dict unset [(Name ''a'', standard_1)]) (Name ''a'') = Some standard_1
   \<and> is_leaf standard_1
   \<and> get_child (Dict unset [(Name ''a'', standard_2)]) (Name ''a'') = Some standard_2
   \<and> is_leaf standard_2"
    by code_simp
  from e h priority_decides_leaf_conflicts [of _ _ _ "Dict unset [(Name ''a'', standard_1)]"
      "Dict unset [(Name ''a'', standard_2)]" "Dict unset [(Name ''a'', standard_2)]"
      "Name ''a''" standard_1 standard_2]
  have "get_child (Dict unset [(Name ''a'', standard_2)]) (Name ''a'')
       = (if priority standard_1 > priority standard_2 then Some standard_1
          else if \<not> truth standard_2 \<and> delete standard_2
                  \<and> \<not> delete (Dict unset [(Name ''a'', standard_2)]) then None
          else Some standard_2)"
    by blast
  with w f e h show ?thesis by blast
qed

text \<open>
  Claim C2 as stated fails: the source's leaf \<open>!del 0\<close> has the priority of the destination's
  leaf \<open>1\<close>, and the merge removes the key instead of storing the source's leaf.
\<close>

theorem falsy_deleted_leaf_counterexample:
  "merge (Dict unset [(Name ''a'', standard_1)]) (Dict unset [(Name ''a'', deleted_0)])
     = Returned (Dict unset [])
   \<and> is_leaf standard_1 \<and> is_leaf deleted_0
   \<and> \<not> priority standard_1 > priority deleted_0
   \<and> get_child (Dict unset []) (Name ''a'') \<noteq> Some deleted_0"
  by code_simp

subsection \<open>Where the code departs from its documentation\<close>

text \<open>
  Claim C1 (the merge is atomic) fails on the code, against the docstring of
  \<open>ConfigDict.merge\<close>: merging \<open>{x: 1, merge: 2}\<close> into the empty dictionary stores \<open>x\<close>, then
  raises \<open>ValueError\<close> for the name \<open>merge\<close>, which \<open>_set\<close> refuses; the destination holds
  \<open>x\<close> when the exception leaves the call. Both merges behave so.
\<close>

theorem merge_raises_after_changing_destination:
  "ConfigDict_merge (Dict unset []) (Dict unset [(Name ''x'', standard_1), (Name ''merge'', standard_2)])
     = Raised ValueError (Dict unset [(Name ''x'', standard_1)])
   \<and> merge (Dict unset []) (Dict unset [(Name ''x'', standard_1), (Name ''merge'', standard_2)])
     = Raised ValueError (Dict unset [(Name ''x'', standard_1)])
   \<and> Dict unset [(Name ''x'', standard_1)] \<noteq> Dict unset []"
  by code_simp

text \<open>
  Claim C4 (a node whose own \<open>allow_new\<close> is false cannot create a new key) fails on the
  code. The property \<open>allow_new\<close> never reads the node's own flag. The merge of composed
  nodes stores a new key with no test of \<open>allow_new\<close> at all, also when the flag is
  inherited. The merge of \<open>ConfigNode\<close>, which has the test, never reaches it: it ends at its
  first statement with \<open>AttributeError\<close>, whatever the flags of the node are.
\<close>

theorem own_allow_new_is_ignored:
  "n_allow_new (flags_of not_new_1) = Some False \<and> allow_new not_new_1
   \<and> merge (Dict unset []) (Dict unset [(Name ''k'', not_new_1)])
       = Returned (Dict unset [(Name ''k'', not_new_1)])
   \<and> merge (Dict unset []) (Dict unset [(Name ''k'', inherited_not_new_1)])
       = Returned (Dict unset [(Name ''k'', inherited_not_new_1)])
   \<and> ConfigNode_merge not_new_1 None = Inl AttributeError
   \<and> ConfigNode_merge inherited_not_new_1 None = Inl AttributeError
   \<and> ConfigNode_merge standard_1 None = Inl AttributeError"
  by code_simp


section \<open>Properties of the nodes in a store\<close>

subsection \<open>Construction from a node\<close>

text \<open>
  Claim C8, amended. \<open>ConfigNode(v, ...)\<close> for a node \<open>v\<close> returns \<open>v\<close> itself: no object is
  created and no other object changes. The node keeps its kind and its content. Of the
  flags passed to the call, \<open>priority\<close>, \<open>implicit_delete\<close> and \<open>implicit_allow_new\<close> are
  written onto it; \<open>idx\<close>, \<open>delete\<close>, \<open>allow_new\<close>, \<open>source_file\<close> and \<open>metadata\<close> stay as
  they were, whatever the call passes.
\<close>

theorem construction_from_node_inherits_three_flags:
  "a < length h \<Longrightarrow>
     \<exists>h'. ConfigNodeMeta_call h (Ref a) kwargs = Inr (a, h')
        \<and> h' = h[a := h' ! a]
        \<and> with_flags unset (h' ! a) = with_flags unset (h ! a)
        \<and> n_priority (obj_flags (h' ! a))
            = (case kw_priority kwargs of None \<Rightarrow> n_priority (obj_flags (h ! a)) | Some v \<Rightarrow> v)
        \<and> n_implicit_delete (obj_flags (h' ! a))
            = (case kw_implicit_delete kwargs of None \<Rightarrow> n_implicit_delete (obj_flags (h ! a)) | Some v \<Rightarrow> v)
        \<and> n_implicit_allow_new (obj_flags (h' ! a))
            = (case kw_implicit_allow_new kwargs of
                 None \<Rightarrow> n_implicit_allow_new (obj_flags (h ! a)) | Some v \<Rightarrow> v)
        \<and> n_idx (obj_flags (h' ! a)) = n_idx (obj_flags (h ! a))
        \<and> n_delete (obj_flags (h' ! a)) = n_delete (obj_flags (h ! a))
        \<and> n_allow_new (obj_flags (h' ! a)) = n_allow_new (obj_flags (h ! a))
        \<and> n_source_file (obj_flags (h' ! a)) = n_source_file (obj_flags (h ! a))
        \<and> n_metadata (obj_flags (h' ! a)) = n_metadata (obj_flags (h ! a))"
  by (cases "h ! a") (auto simp: ConfigNodeMeta_call_def inherit_kwargs_def split: option.splits)

text \<open>The leaf of \<open>one_leaf\<close>, constructed again with \<open>priority=FORCE\<close> and \<open>delete=True\<close>.\<close>

theorem construction_from_node_inherits_three_flags_witness:
  "0 < length one_leaf
   \<and> (\<exists>h'. ConfigNodeMeta_call one_leaf (Ref 0) force_and_delete = Inr (0, h')
         \<and> n_priority (obj_flags (h' ! 0)) = Some FORCE
         \<and> n_delete (obj_flags (h' ! 0)) = None)"
proof -
  have "0 < length one_leaf" by (simp add: one_leaf_def)
  from construction_from_node_inherits_three_flags [OF this, of force_and_delete]
  show ?thesis by (auto simp: one_leaf_def force_and_delete_def no_kwargs_def unset_def)
qed

text \<open>
  Claim C8 as it stands fails: a call that passes \<open>delete=True\<close> and \<open>allow_new=False\<close> for
  a node with neither flag set returns the node with neither flag set.
\<close>

theorem construction_ignores_delete_counterexample:
  "ConfigNodeMeta_call one_leaf (Ref 0) delete_and_not_new = Inr (0, one_leaf)
   \<and> parameter (kw_delete delete_and_not_new) = Some True
   \<and> parameter (kw_allow_new delete_and_not_new) = Some False
   \<and> n_delete (obj_flags (one_leaf ! 0)) = None
   \<and> n_allow_new (obj_flags (one_leaf ! 0)) = None"
  by code_simp

subsection \<open>Evaluation\<close>

text \<open>
  Claim C10 (the evaluation of a node never gives a node) fails on the code for every
  \<open>ConfigDict\<close>, against the two assertions of \<open>evaluate_node\<close>: \<open>_get_value\<close> returns the
  dictionary itself, so \<open>on_evaluate\<close> returns the node, \<open>evaluate_node\<close> fails its first
  assertion, and the pass \<open>evaluate\<close>, here on \<open>{a: x, b: x}\<close>, returns the node it was
  called on.
\<close>

theorem evaluation_of_dict_is_the_dict:
  "on_evaluate ctx path (length h) (h @ [DictObject f cs]) = Inr (Ref (length h))
   \<and> evaluate_node path root (length h) (h @ [DictObject f cs]) = Inl AssertionError
   \<and> map_option (map_sum id fst) (evaluate 2 1 shared_leaf) = Some (Inr (Ref 1))"
proof -
  have "map_option (map_sum id fst) (evaluate 2 1 shared_leaf) = Some (Inr (Ref 1))"
    by code_simp
  then show ?thesis by (simp add: on_evaluate_def evaluate_node_def get_value_def)
qed

subsection \<open>The merge of a destination that holds one node under two names\<close>


subsection \<open>\<open>ConfigNode(value)\<close> and \<open>set_child\<close> in the store\<close>









subsection \<open>The equations of \<open>map_nodes\<close> for a pass that returns\<close>








subsection \<open>The list \<open>to_re_set\<close>\<close>






subsection \<open>The cache\<close>






subsection \<open>The invariant of a pass\<close>






lemma cache_grows_same_cache:
  "cache st1 = cache st \<Longrightarrow> cache_grows rk r h0 st1 st' = cache_grows rk r h0 st st'"
  by (simp add: cache_grows_def)

lemma cache_grows_same_cache2:
  "cache st1 = cache st' \<Longrightarrow> cache_grows rk r h0 st st1 = cache_grows rk r h0 st st'"
  by (simp add: cache_grows_def)







subsection \<open>The invariant through \<open>map_nodes\<close>\<close>





subsection \<open>Shared nodes in \<open>map_nodes\<close>\<close>










end
